theory Spec2Isabelle
  imports Main "HOL-Library.Sublist"
begin

section \<open>The ProjectManagerModal migration script\<close>

text \<open>
  \<^verbatim>\<open>fix_project_manager.py\<close> reads one file, applies six \<^verbatim>\<open>re.sub\<close> calls in a row to
  its text, writes the result back to the same path and prints one line.  The theory
  models the text as a \<^typ>\<open>string\<close>, each \<^verbatim>\<open>re.sub\<close> call as a function on strings,
  the file system as a map from paths to files, and the script as a function on a
  \<open>world\<close> that returns either the exception that ends the run or the final state.

  A \<^typ>\<open>string\<close> is a list of bytes.  A text stands for the bytes of its UTF-8
  encoding: every pattern and replacement of the script is ASCII, and an ASCII byte never
  occurs inside the encoding of another character, so the occurrences of a pattern in
  the bytes are its occurrences in the characters.
\<close>

subsection \<open>Characters that the string syntax cannot hold\<close>

abbreviation bs :: char where "bs \<equiv> CHR 0x5C"
abbreviation sq :: char where "sq \<equiv> CHR 0x27"
abbreviation nl :: char where "nl \<equiv> CHR 0x0A"
abbreviation cr :: char where "cr \<equiv> CHR 0x0D"

text \<open>
  A Python triple-quoted string is written as the list of its lines;
  \<open>join_lines\<close> puts the line feeds back (\<^verbatim>\<open>"\n".join(lines)\<close>).
\<close>

fun join_lines :: "string list \<Rightarrow> string" where
  "join_lines [] = []"
| "join_lines [l] = l"
| "join_lines (l # ls) = l @ nl # join_lines ls"

subsection \<open>\<^verbatim>\<open>re.sub\<close> on patterns without operators\<close>

text \<open>
  Every pattern of the script is a sequence of ordinary characters and of punctuation
  characters escaped with a backslash; none uses a regular-expression operator.
  \<open>re_literal\<close> reads such a pattern and returns the one string it matches.  It
  follows the parser of Python's \<^verbatim>\<open>re\<close> module on this fragment: a backslash before an
  ASCII letter or digit starts a special sequence, any other escaped character stands
  for itself; an unescaped \<^verbatim>\<open>. ^ $ * + ? ( ) [ ] |\<close> is an operator; an opening brace
  is an ordinary character unless a digit, a comma or a closing brace follows.  Any
  pattern outside the fragment gives \<open>None\<close>.
\<close>

definition is_alnum :: "char \<Rightarrow> bool" where
  "is_alnum c =
     (c \<in> set (''0123456789'' @ ''abcdefghijklmnopqrstuvwxyz'' @ ''ABCDEFGHIJKLMNOPQRSTUVWXYZ''))"

definition is_operator :: "char \<Rightarrow> bool" where
  "is_operator c = (c \<in> set ''.^$*+?()[]|'')"

fun re_literal :: "string \<Rightarrow> string option" where
  "re_literal [] = Some []"
| "re_literal [c] = (if c = bs \<or> is_operator c then None else Some [c])"
| "re_literal (c # d # ds) =
     (if c = bs then (if is_alnum d then None else map_option ((#) d) (re_literal ds))
      else if is_operator c then None
      else if c = CHR ''{'' \<and> d \<in> set ''0123456789,}'' then None
      else map_option ((#) c) (re_literal (d # ds)))"

text \<open>
  The replacement argument of \<^verbatim>\<open>re.sub\<close> is a template in which a backslash starts
  an escape or a group reference.  A template without a backslash is inserted as it is.
\<close>

definition re_template :: "string \<Rightarrow> string option" where
  "re_template repl = (if bs \<in> set repl then None else Some repl)"

text \<open>
  Matching a literal at the head of the text: \<open>strip_prefix p t\<close> is the rest of
  \<open>t\<close> after \<open>p\<close>, or \<open>None\<close> when \<open>t\<close> does not start with \<open>p\<close>.
\<close>

fun strip_prefix :: "'a list \<Rightarrow> 'a list \<Rightarrow> 'a list option" where
  "strip_prefix [] t = Some t"
| "strip_prefix (x # xs) [] = None"
| "strip_prefix (x # xs) (y # ys) = (if x = y then strip_prefix xs ys else None)"

text \<open>
  \<^verbatim>\<open>re.sub\<close> with the default \<^verbatim>\<open>count=0\<close> scans the text from the left.  Where the
  pattern matches it emits the replacement and goes on after the match; elsewhere it
  copies one character.  An empty pattern matches before every character and at the end.
\<close>

function sub_literal :: "'a list \<Rightarrow> 'a list \<Rightarrow> 'a list \<Rightarrow> 'a list" where
  "sub_literal p r [] = (if p = [] then r else [])"
| "sub_literal p r (c # cs) =
     (if p = [] then r @ c # sub_literal p r cs
      else case strip_prefix p (c # cs) of
             Some rest \<Rightarrow> r @ sub_literal p r rest
           | None \<Rightarrow> c # sub_literal p r cs)"
  by pat_completeness auto
termination
proof (relation "measure (\<lambda>(p, r, t). length t)")
  fix p r :: "'a list" and c cs rest
  assume p: "p \<noteq> []" and m: "strip_prefix p (c # cs) = Some rest"
  have sp: "strip_prefix q t = Some u \<Longrightarrow> t = q @ u" for q t u :: "'a list"
    by (induction q t rule: strip_prefix.induct) (auto split: if_splits)
  from sp[OF m] have "length (c # cs) = length p + length rest"
    by (metis length_append)
  with p show "((p, r, rest), (p, r, c # cs)) \<in> measure (\<lambda>(p, r, t). length t)"
    by (cases p) auto
qed auto

text \<open>
  \<^verbatim>\<open>re.DOTALL\<close> changes what an unescaped dot matches.  \<open>re_literal\<close> accepts no
  unescaped dot, so the flag is carried as in the source and has no effect.
\<close>

datatype flag = DOTALL

definition re_sub :: "string \<Rightarrow> string \<Rightarrow> string \<Rightarrow> flag list \<Rightarrow> string option" where
  "re_sub pattern repl text flags =
     (case re_literal pattern of
        None \<Rightarrow> None
      | Some p \<Rightarrow> (case re_template repl of
                     None \<Rightarrow> None
                   | Some r \<Rightarrow> Some (sub_literal p r text)))"

subsection \<open>The six patterns and replacements\<close>

text \<open>
  For each \<^verbatim>\<open>re.sub\<close> call, in the order of the script: \<open>old_\<close> is the pattern as the
  raw string of the source has it, backslashes included; \<open>frag_\<close> is the code
  fragment that this pattern matches; \<open>new_\<close> is the replacement.  The first three
  calls have their strings inline, the last three name them \<^verbatim>\<open>old_submit\<close>,
  \<^verbatim>\<open>new_submit\<close> and so on.
\<close>

text \<open>Call 1: the formData state declaration.\<close>

definition old_state :: string where
  \<open>old_state =
     ''const '' @ bs # ''[formData, setFormData'' @ bs # ''] = useState'' @ bs # ''({ name: '' @ sq # sq # '', color: COLORS'' @ bs # ''[0'' @ bs # ''], customerId: undefined as number '' @ bs # ''| undefined }'' @ bs # '')''\<close>

definition frag_state :: string where
  \<open>frag_state =
     ''const [formData, setFormData] = useState({ name: '' @ sq # sq # '', color: COLORS[0], customerId: undefined as number | undefined })''\<close>

definition new_state :: string where
  \<open>new_state =
     ''const [formData, setFormData] = useState({ name: '' @ sq # sq # '', color: COLORS[0], customerFirestoreId: undefined as string | undefined })''\<close>

text \<open>Call 2: the setFormData reset call.\<close>

definition old_reset :: string where
  \<open>old_reset =
     ''setFormData'' @ bs # ''({ name: '' @ sq # sq # '', color: COLORS'' @ bs # ''[0'' @ bs # ''], customerId: undefined }'' @ bs # '')''\<close>

definition frag_reset :: string where
  \<open>frag_reset =
     ''setFormData({ name: '' @ sq # sq # '', color: COLORS[0], customerId: undefined })''\<close>

definition new_reset :: string where
  \<open>new_reset =
     ''setFormData({ name: '' @ sq # sq # '', color: COLORS[0], customerFirestoreId: undefined })''\<close>

text \<open>Call 3: the setFormData call of handleEdit.\<close>

definition old_edit :: string where
  \<open>old_edit =
     ''setFormData'' @ bs # ''({ name: project'' @ bs # ''.name, color: project'' @ bs # ''.color, customerId: project'' @ bs # ''.customerId }'' @ bs # '')''\<close>

definition frag_edit :: string where
  \<open>frag_edit =
     ''setFormData({ name: project.name, color: project.color, customerId: project.customerId })''\<close>

definition new_edit :: string where
  \<open>new_edit =
     ''setFormData({ name: project.name, color: project.color, customerFirestoreId: project.customerFirestoreId })''\<close>

text \<open>Call 4: the try block of handleSubmit.\<close>

definition old_submit :: string where
  \<open>old_submit =
     join_lines
      [''    try {'',
       ''      if '' @ bs # ''(editingProject'' @ bs # '') {'',
       ''        await updateProject'' @ bs # ''(editingProject'' @ bs # ''.id!, {'',
       ''          name: formData'' @ bs # ''.name'' @ bs # ''.trim'' @ bs # ''('' @ bs # ''),'',
       ''          color: formData'' @ bs # ''.color,'',
       ''          customerId: formData'' @ bs # ''.customerId'',
       ''        }'' @ bs # '')'',
       ''        showToast'' @ bs # ''('Project updated', 'success'' @ sq # bs # '')'',
       ''      } else {'',
       ''        await createProject'' @ bs # ''({'',
       ''          name: formData'' @ bs # ''.name'' @ bs # ''.trim'' @ bs # ''('' @ bs # ''),'',
       ''          color: formData'' @ bs # ''.color,'',
       ''          customerId: formData'' @ bs # ''.customerId,'',
       ''          archived: false'',
       ''        }'' @ bs # '')'',
       ''        showToast'' @ bs # ''('Project created', 'success'' @ sq # bs # '')'',
       ''      }'',
       '''',
       ''      setEditingProject'' @ bs # ''(null'' @ bs # '')'',
       ''      setIsCreating'' @ bs # ''(false'' @ bs # '')'',
       ''      setFormData'' @ bs # ''({ name: '' @ sq # sq # '', color: COLORS'' @ bs # ''[0'' @ bs # ''], customerId: undefined }'' @ bs # '')'',
       ''    } catch '' @ bs # ''(error'' @ bs # '') {'',
       ''      showToast'' @ bs # ''('Failed to save project', 'error'' @ sq # bs # '')'',
       ''    }'']\<close>

definition frag_submit :: string where
  \<open>frag_submit =
     join_lines
      [''    try {'',
       ''      if (editingProject) {'',
       ''        await updateProject(editingProject.id!, {'',
       ''          name: formData.name.trim(),'',
       ''          color: formData.color,'',
       ''          customerId: formData.customerId'',
       ''        })'',
       ''        showToast('Project updated', 'success')'',
       ''      } else {'',
       ''        await createProject({'',
       ''          name: formData.name.trim(),'',
       ''          color: formData.color,'',
       ''          customerId: formData.customerId,'',
       ''          archived: false'',
       ''        })'',
       ''        showToast('Project created', 'success')'',
       ''      }'',
       '''',
       ''      setEditingProject(null)'',
       ''      setIsCreating(false)'',
       ''      setFormData({ name: '' @ sq # sq # '', color: COLORS[0], customerId: undefined })'',
       ''    } catch (error) {'',
       ''      showToast('Failed to save project', 'error')'',
       ''    }'']\<close>

definition new_submit :: string where
  \<open>new_submit =
     join_lines
      [''    try {'',
       ''      // Find the customer's local ID for backward compatibility'',
       ''      const customer = formData.customerFirestoreId '',
       ''        ? customers.find(c => c.firestoreId === formData.customerFirestoreId)'',
       ''        : undefined;'',
       '''',
       ''      if (editingProject) {'',
       ''        await updateProject(editingProject.id!, {'',
       ''          name: formData.name.trim(),'',
       ''          color: formData.color,'',
       ''          customerId: customer?.id,'',
       ''          customerFirestoreId: formData.customerFirestoreId'',
       ''        })'',
       ''        showToast('Project updated', 'success')'',
       ''      } else {'',
       ''        await createProject({'',
       ''          name: formData.name.trim(),'',
       ''          color: formData.color,'',
       ''          customerId: customer?.id,'',
       ''          customerFirestoreId: formData.customerFirestoreId,'',
       ''          archived: false'',
       ''        })'',
       ''        showToast('Project created', 'success')'',
       ''      }'',
       '''',
       ''      setEditingProject(null)'',
       ''      setIsCreating(false)'',
       ''      setFormData({ name: '' @ sq # sq # '', color: COLORS[0], customerFirestoreId: undefined })'',
       ''    } catch (error) {'',
       ''      showToast('Failed to save project', 'error')'',
       ''    }'']\<close>

text \<open>Call 5: the customer select dropdown.\<close>

definition old_select :: string where
  \<open>old_select =
     join_lines
      [''                <select'',
       ''                  value={formData'' @ bs # ''.customerId '' @ bs # ''|'' @ bs # ''| '' @ sq # sq # ''}'',
       ''                  onChange={'' @ bs # ''(e'' @ bs # '') => setFormData'' @ bs # ''({ '' @ bs # ''.'' @ bs # ''.'' @ bs # ''.formData, customerId: e'' @ bs # ''.target'' @ bs # ''.value '' @ bs # ''? Number'' @ bs # ''(e'' @ bs # ''.target'' @ bs # ''.value'' @ bs # '') : undefined }'' @ bs # '')}'',
       ''                  className="w-full border border-gray-300 dark:border-gray-600 dark:bg-gray-800 dark:text-white rounded-md px-3 py-2 focus:outline-none focus:ring-2 focus:ring-blue-500"'',
       ''                >'',
       ''                  <option value="">No customer</option>'',
       ''                  {customers'' @ bs # ''.filter'' @ bs # ''(c => !c'' @ bs # ''.archived'' @ bs # '')'' @ bs # ''.map'' @ bs # ''('' @ bs # ''(customer'' @ bs # '') => '' @ bs # ''('',
       ''                    <option key={customer'' @ bs # ''.id} value={customer'' @ bs # ''.id}>'',
       ''                      {customer'' @ bs # ''.companyName}'',
       ''                    </option>'',
       ''                  '' @ bs # '')'' @ bs # '')}'',
       ''                </select>'']\<close>

definition frag_select :: string where
  \<open>frag_select =
     join_lines
      [''                <select'',
       ''                  value={formData.customerId || '' @ sq # sq # ''}'',
       ''                  onChange={(e) => setFormData({ ...formData, customerId: e.target.value ? Number(e.target.value) : undefined })}'',
       ''                  className="w-full border border-gray-300 dark:border-gray-600 dark:bg-gray-800 dark:text-white rounded-md px-3 py-2 focus:outline-none focus:ring-2 focus:ring-blue-500"'',
       ''                >'',
       ''                  <option value="">No customer</option>'',
       ''                  {customers.filter(c => !c.archived).map((customer) => ('',
       ''                    <option key={customer.id} value={customer.id}>'',
       ''                      {customer.companyName}'',
       ''                    </option>'',
       ''                  ))}'',
       ''                </select>'']\<close>

definition new_select :: string where
  \<open>new_select =
     join_lines
      [''                <select'',
       ''                  value={formData.customerFirestoreId || '' @ sq # sq # ''}'',
       ''                  onChange={(e) => setFormData({ ...formData, customerFirestoreId: e.target.value || undefined })}'',
       ''                  className="w-full border border-gray-300 dark:border-gray-600 dark:bg-gray-800 dark:text-white rounded-md px-3 py-2 focus:outline-none focus:ring-2 focus:ring-blue-500"'',
       ''                >'',
       ''                  <option value="">No customer</option>'',
       ''                  {customers.filter(c => !c.archived).map((customer) => ('',
       ''                    <option key={customer.id} value={customer.firestoreId}>'',
       ''                      {customer.companyName}'',
       ''                    </option>'',
       ''                  ))}'',
       ''                </select>'']\<close>

text \<open>Call 6: the head of the ProjectItem function.\<close>

definition old_project_item :: string where
  \<open>old_project_item =
     join_lines
      [''function ProjectItem'' @ bs # ''({ project, onEdit, onDelete, onArchive }: ProjectItemProps'' @ bs # '') {'',
       ''  return '' @ bs # ''('',
       ''    <div className={`'',
       ''      flex items-center justify-between p-3 border border-gray-200 dark:border-gray-700 rounded-lg'',
       ''      '' @ bs # ''$'' @ bs # ''{project'' @ bs # ''.archived '' @ bs # ''? 'bg-gray-50 dark:bg-gray-700 opacity-75' : 'bg-white dark:bg-gray-800 hover:bg-gray-50 dark:hover:bg-gray-700'' @ sq # bs # ''}'',
       ''    `}>'',
       ''      <div className="flex items-center">'',
       ''        <div'',
       ''          className="w-4 h-4 rounded-full mr-3 flex-shrink-0"'',
       ''          style='' @ bs # ''{'' @ bs # ''{ backgroundColor: project'' @ bs # ''.color '' @ bs # ''}'' @ bs # ''}'',
       ''        />'',
       ''        <span className={`font-medium '' @ bs # ''$'' @ bs # ''{project'' @ bs # ''.archived '' @ bs # ''? 'text-gray-500 dark:text-gray-400' : 'text-gray-900 dark:text-white'' @ sq # bs # ''}`}>'',
       ''          '' @ bs # ''{project'' @ bs # ''.name'' @ bs # ''}'',
       ''        </span>'',
       ''        '' @ bs # ''{project'' @ bs # ''.archived && '' @ bs # ''('',
       ''          <span className="ml-2 px-2 py-1 bg-gray-200 dark:bg-gray-600 text-gray-600 dark:text-gray-300 text-xs rounded-full">'',
       ''            Archived'',
       ''          </span>'',
       ''        '' @ bs # '')'' @ bs # ''}'',
       ''      </div>'']\<close>

definition frag_project_item :: string where
  \<open>frag_project_item =
     join_lines
      [''function ProjectItem({ project, onEdit, onDelete, onArchive }: ProjectItemProps) {'',
       ''  return ('',
       ''    <div className={`'',
       ''      flex items-center justify-between p-3 border border-gray-200 dark:border-gray-700 rounded-lg'',
       ''      ${project.archived ? 'bg-gray-50 dark:bg-gray-700 opacity-75' : 'bg-white dark:bg-gray-800 hover:bg-gray-50 dark:hover:bg-gray-700'}'',
       ''    `}>'',
       ''      <div className="flex items-center">'',
       ''        <div'',
       ''          className="w-4 h-4 rounded-full mr-3 flex-shrink-0"'',
       ''          style={{ backgroundColor: project.color }}'',
       ''        />'',
       ''        <span className={`font-medium ${project.archived ? 'text-gray-500 dark:text-gray-400' : 'text-gray-900 dark:text-white'}`}>'',
       ''          {project.name}'',
       ''        </span>'',
       ''        {project.archived && ('',
       ''          <span className="ml-2 px-2 py-1 bg-gray-200 dark:bg-gray-600 text-gray-600 dark:text-gray-300 text-xs rounded-full">'',
       ''            Archived'',
       ''          </span>'',
       ''        )}'',
       ''      </div>'']\<close>

definition new_project_item :: string where
  \<open>new_project_item =
     join_lines
      [''function ProjectItem({ project, onEdit, onDelete, onArchive }: ProjectItemProps) {'',
       ''  const { customers } = useCustomersStore();'',
       ''  const customer = project.customerFirestoreId '',
       ''    ? customers.find(c => c.firestoreId === project.customerFirestoreId)'',
       ''    : undefined;'',
       '''',
       ''  return ('',
       ''    <div className={`'',
       ''      flex items-center justify-between p-3 border border-gray-200 dark:border-gray-700 rounded-lg'',
       ''      ${project.archived ? 'bg-gray-50 dark:bg-gray-700 opacity-75' : 'bg-white dark:bg-gray-800 hover:bg-gray-50 dark:hover:bg-gray-700'}'',
       ''    `}>'',
       ''      <div className="flex items-center">'',
       ''        <div'',
       ''          className="w-4 h-4 rounded-full mr-3 flex-shrink-0"'',
       ''          style={{ backgroundColor: project.color }}'',
       ''        />'',
       ''        <div className="flex flex-col">'',
       ''          <span className={`font-medium ${project.archived ? 'text-gray-500 dark:text-gray-400' : 'text-gray-900 dark:text-white'}`}>'',
       ''            {project.name}'',
       ''          </span>'',
       ''          {customer && ('',
       ''            <span className="text-xs text-gray-500 dark:text-gray-400">'',
       ''              {customer.companyName}'',
       ''            </span>'',
       ''          )}'',
       ''        </div>'',
       ''        {project.archived && ('',
       ''          <span className="ml-2 px-2 py-1 bg-gray-200 dark:bg-gray-600 text-gray-600 dark:text-gray-300 text-xs rounded-full">'',
       ''            Archived'',
       ''          </span>'',
       ''        )}'',
       ''      </div>'']\<close>

subsection \<open>The six substitutions\<close>

text \<open>
  The script rebinds \<^verbatim>\<open>content\<close> six times; each call reads the text the previous call
  returned.  The last three calls pass \<^verbatim>\<open>flags=re.DOTALL\<close>.
\<close>

definition rewrite :: "string \<Rightarrow> string option" where
  "rewrite content =
     Option.bind (re_sub old_state new_state content []) (\<lambda>content.
     Option.bind (re_sub old_reset new_reset content []) (\<lambda>content.
     Option.bind (re_sub old_edit new_edit content []) (\<lambda>content.
     Option.bind (re_sub old_submit new_submit content [DOTALL]) (\<lambda>content.
     Option.bind (re_sub old_select new_select content [DOTALL]) (\<lambda>content.
     re_sub old_project_item new_project_item content [DOTALL])))))"

text \<open>
  The same pipeline on the fragments that the patterns match: the list of the six
  (fragment, replacement) pairs in the order of the script, applied from left to right.
\<close>

definition transformations :: "(string \<times> string) list" where
  "transformations =
     [(frag_state, new_state), (frag_reset, new_reset), (frag_edit, new_edit),
      (frag_submit, new_submit), (frag_select, new_select),
      (frag_project_item, new_project_item)]"

definition apply_all :: "(string \<times> string) list \<Rightarrow> string \<Rightarrow> string" where
  "apply_all ts text = foldl (\<lambda>t (p, r). sub_literal p r t) text ts"

text \<open>The six steps by name.\<close>

abbreviation sub_state :: "string \<Rightarrow> string" where
  "sub_state \<equiv> sub_literal frag_state new_state"

abbreviation sub_reset :: "string \<Rightarrow> string" where
  "sub_reset \<equiv> sub_literal frag_reset new_reset"

abbreviation sub_edit :: "string \<Rightarrow> string" where
  "sub_edit \<equiv> sub_literal frag_edit new_edit"

abbreviation sub_submit :: "string \<Rightarrow> string" where
  "sub_submit \<equiv> sub_literal frag_submit new_submit"

abbreviation sub_select :: "string \<Rightarrow> string" where
  "sub_select \<equiv> sub_literal frag_select new_select"

abbreviation sub_project_item :: "string \<Rightarrow> string" where
  "sub_project_item \<equiv> sub_literal frag_project_item new_project_item"

subsection \<open>Files, standard output and the script\<close>

text \<open>
  A file has the two permissions that \<^verbatim>\<open>open\<close> checks and its contents, which are
  either text or bytes that do not decode as UTF-8.  The world holds the files by path,
  the paths at which a new file could be created, the arguments and the environment of
  the process (the script reads neither) and the trace of what the run has done so far:
  a completed read, a completed write, a printed line.  The errors are the exceptions
  that \<^verbatim>\<open>open\<close> and \<^verbatim>\<open>read\<close> raise; \<open>UnsupportedPattern\<close> stands for a pattern or
  a replacement outside the fragment of \<open>re_literal\<close> and \<open>re_template\<close>, which the
  script does not have (\<open>rewrite_total\<close> below).
\<close>

type_synonym path = string

datatype error = FileNotFoundError | PermissionError | UnicodeDecodeError | UnsupportedPattern

datatype contents = Text string | Undecodable

record disk_file =
  readable :: bool
  writable :: bool
  contents :: contents

datatype event = Read path string | Write path string | Print string

record world =
  files :: "path \<rightharpoonup> disk_file"
  may_create :: "path \<Rightarrow> bool"
  argv :: "string list"
  environ :: "string \<rightharpoonup> string"
  trace :: "event list"

definition target :: path where
  "target = ''src/components/ProjectManagerModal.tsx''"

definition success_line :: string where
  "success_line = ''File updated successfully!''"

text \<open>\<^verbatim>\<open>open(path, 'r', encoding='utf-8')\<close>: the file must exist and be readable.\<close>

definition open_read :: "path \<Rightarrow> world \<Rightarrow> error + disk_file" where
  "open_read p w =
     (case files w p of
        None \<Rightarrow> Inl FileNotFoundError
      | Some f \<Rightarrow> if readable f then Inr f else Inl PermissionError)"

text \<open>
  The file is opened in text mode without a \<^verbatim>\<open>newline\<close> argument, so reading
  translates line ends: a carriage return followed by a line feed, and a carriage
  return alone, both reach the program as one line feed.
\<close>

fun universal_newlines :: "string \<Rightarrow> string" where
  "universal_newlines [] = []"
| "universal_newlines [c] = (if c = cr then [nl] else [c])"
| "universal_newlines (c # d # ds) =
     (if c = cr then (if d = nl then nl # universal_newlines ds
                      else nl # universal_newlines (d # ds))
      else c # universal_newlines (d # ds))"

text \<open>
  \<^verbatim>\<open>with open(...) as f: content = f.read()\<close>: open, decode the whole file, translate
  the line ends.  The trace records the text that \<^verbatim>\<open>read\<close> returns.
\<close>

definition read_text :: "path \<Rightarrow> world \<Rightarrow> error + string \<times> world" where
  "read_text p w =
     (case open_read p w of
        Inl e \<Rightarrow> Inl e
      | Inr f \<Rightarrow> (case contents f of
                    Undecodable \<Rightarrow> Inl UnicodeDecodeError
                  | Text s \<Rightarrow> Inr (universal_newlines s,
                                   w\<lparr>trace := trace w @ [Read p (universal_newlines s)]\<rparr>)))"

text \<open>
  \<^verbatim>\<open>with open(path, 'w', encoding='utf-8') as f: f.write(content)\<close>: an existing file
  must be writable and gets the new contents; a missing file is created where the
  world allows it.  Opening, writing and closing are one step: the model has no failure
  between the truncation of the file and the end of the write.  The text is stored as it
  is given: the model is of a system whose line separator is the line feed, where
  writing translates nothing.
\<close>

definition write_text :: "path \<Rightarrow> string \<Rightarrow> world \<Rightarrow> error + world" where
  "write_text p s w =
     (case files w p of
        None \<Rightarrow>
          if may_create w p
          then Inr (w\<lparr>files := (files w)(p \<mapsto> \<lparr>readable = True, writable = True, contents = Text s\<rparr>),
                      trace := trace w @ [Write p s]\<rparr>)
          else Inl PermissionError
      | Some f \<Rightarrow>
          if writable f
          then Inr (w\<lparr>files := (files w)(p \<mapsto> f\<lparr>contents := Text s\<rparr>),
                      trace := trace w @ [Write p s]\<rparr>)
          else Inl PermissionError)"

definition print_line :: "string \<Rightarrow> world \<Rightarrow> world" where
  "print_line s w = w\<lparr>trace := trace w @ [Print s]\<rparr>"

text \<open>What a trace shows on standard output.\<close>

fun printed :: "event list \<Rightarrow> string list" where
  "printed [] = []"
| "printed (Print s # es) = s # printed es"
| "printed (e # es) = printed es"

text \<open>
  The script.  An exception ends the run at the statement that raises it; the world is
  returned as it is at that moment.
\<close>

definition main :: "world \<Rightarrow> (error + unit) \<times> world" where
  "main w =
     (case read_text target w of
        Inl e \<Rightarrow> (Inl e, w)
      | Inr (content, w1) \<Rightarrow>
          (case rewrite content of
             None \<Rightarrow> (Inl UnsupportedPattern, w1)
           | Some content' \<Rightarrow>
               (case write_text target content' w1 of
                  Inl e \<Rightarrow> (Inl e, w1)
                | Inr w2 \<Rightarrow> (Inr (), print_line success_line w2))))"

definition can_open_read :: "world \<Rightarrow> path \<Rightarrow> bool" where
  "can_open_read w p = (case files w p of None \<Rightarrow> False | Some f \<Rightarrow> readable f)"

subsection \<open>Occurrences and overlaps\<close>

text \<open>
  \<open>sublist p t\<close> of the library says that \<open>p\<close> occurs in \<open>t\<close>.  Two further checks
  decide whether occurrences of two strings can share characters.  \<open>agree xs ys\<close>: one
  of the two is a prefix of the other.  \<open>meets xs ys\<close>: a non-empty suffix of \<open>xs\<close>
  agrees with \<open>ys\<close>, so an occurrence of \<open>ys\<close> can start inside an occurrence of
  \<open>xs\<close>.  \<open>apart q x\<close>: no occurrence of \<open>q\<close> shares a character with an occurrence
  of \<open>x\<close>.  \<open>unbordered p\<close>: two different occurrences of \<open>p\<close> never overlap.
\<close>

fun agree :: "'a list \<Rightarrow> 'a list \<Rightarrow> bool" where
  "agree [] ys = True"
| "agree (x # xs) [] = True"
| "agree (x # xs) (y # ys) = (x = y \<and> agree xs ys)"

fun meets :: "'a list \<Rightarrow> 'a list \<Rightarrow> bool" where
  "meets [] ys = False"
| "meets (x # xs) ys = (agree (x # xs) ys \<or> meets xs ys)"

definition apart :: "'a list \<Rightarrow> 'a list \<Rightarrow> bool" where
  "apart q x = (\<not> meets x q \<and> \<not> meets q x)"

definition unbordered :: "'a list \<Rightarrow> bool" where
  "unbordered p = (p \<noteq> [] \<and> \<not> meets (tl p) p)"

text \<open>\<open>join p us\<close> is Python's \<^verbatim>\<open>p.join(us)\<close>: the pieces with \<open>p\<close> between them.\<close>

fun join :: "'a list \<Rightarrow> 'a list list \<Rightarrow> 'a list" where
  "join p [] = []"
| "join p [u] = u"
| "join p (u # us) = u @ p @ join p us"

text \<open>
  \<open>replaces p r t t'\<close>: \<open>t'\<close> is \<open>t\<close> with some occurrences of \<open>p\<close> replaced by
  \<open>r\<close>; the pieces between them are the same, in the same order, and contain no
  further occurrence of \<open>p\<close>.
\<close>

definition replaces :: "'a list \<Rightarrow> 'a list \<Rightarrow> 'a list \<Rightarrow> 'a list \<Rightarrow> bool" where
  "replaces p r t t' =
     (\<exists>us. us \<noteq> [] \<and> t = join p us \<and> t' = join r us \<and> list_all (\<lambda>u. \<not> sublist p u) us)"

subsection \<open>Evaluation by cases\<close>

text \<open>
  Helper functions that take the outcome of a test as an argument, so that the
  recursive functions above can be evaluated on long strings one step at a time.
\<close>

datatype re_class = Escape | Plain | Unsupported

definition classify :: "char \<Rightarrow> char \<Rightarrow> re_class" where
  "classify c d =
     (if c = bs then (if is_alnum d then Unsupported else Escape)
      else if is_operator c then Unsupported
      else if c = CHR ''{'' \<and> d \<in> set ''0123456789,}'' then Unsupported
      else Plain)"

fun re_literal_case :: "re_class \<Rightarrow> char \<Rightarrow> char \<Rightarrow> string \<Rightarrow> string option" where
  "re_literal_case Escape c d ds = map_option ((#) d) (re_literal ds)"
| "re_literal_case Plain c d ds = map_option ((#) c) (re_literal (d # ds))"
| "re_literal_case Unsupported c d ds = None"

definition strip_if :: "bool \<Rightarrow> 'a list \<Rightarrow> 'a list \<Rightarrow> 'a list option" where
  "strip_if b xs ys = (if b then strip_prefix xs ys else None)"

fun sub_case :: "'a list option \<Rightarrow> 'a list \<Rightarrow> 'a list \<Rightarrow> 'a \<Rightarrow> 'a list \<Rightarrow> 'a list" where
  "sub_case (Some rest) p r c cs = r @ sub_literal p r rest"
| "sub_case None p r c cs = c # sub_literal p r cs"

definition agree_if :: "bool \<Rightarrow> 'a list \<Rightarrow> 'a list \<Rightarrow> bool" where
  "agree_if b xs ys = (b \<and> agree xs ys)"

definition prefix_if :: "bool \<Rightarrow> 'a list \<Rightarrow> 'a list \<Rightarrow> bool" where
  "prefix_if b xs ys = (b \<and> prefix xs ys)"

subsection \<open>Texts used in the statements\<close>

text \<open>The state declaration is the line that the rename changes, between the text before it and the text after it.\<close>

definition ctx_before :: string where
  \<open>ctx_before =
     ''const [formData, setFormData] = useState({ name: '' @ sq # sq # '', color: COLORS[0], ''\<close>

definition old_line :: string where
  \<open>old_line =
     ''customerId: undefined as number | undefined''\<close>

definition new_line :: string where
  \<open>new_line =
     ''customerFirestoreId: undefined as string | undefined''\<close>

definition ctx_after :: string where
  \<open>ctx_after =
     '' })''\<close>

text \<open>The try block of handleSubmit contains the reset call; these are the text before it and the text after it.\<close>

definition submit_before :: string where
  \<open>submit_before =
     join_lines
      [''    try {'',
       ''      if (editingProject) {'',
       ''        await updateProject(editingProject.id!, {'',
       ''          name: formData.name.trim(),'',
       ''          color: formData.color,'',
       ''          customerId: formData.customerId'',
       ''        })'',
       ''        showToast('Project updated', 'success')'',
       ''      } else {'',
       ''        await createProject({'',
       ''          name: formData.name.trim(),'',
       ''          color: formData.color,'',
       ''          customerId: formData.customerId,'',
       ''          archived: false'',
       ''        })'',
       ''        showToast('Project created', 'success')'',
       ''      }'',
       '''',
       ''      setEditingProject(null)'',
       ''      setIsCreating(false)'',
       ''      '']\<close>

definition submit_after :: string where
  \<open>submit_after =
     join_lines
      ['''',
       ''    } catch (error) {'',
       ''      showToast('Failed to save project', 'error')'',
       ''    }'']\<close>

text \<open>The try block with its reset call renamed: what the second substitution makes of it.\<close>

definition submit_renamed :: string where
  \<open>submit_renamed = submit_before @ new_reset @ submit_after\<close>

text \<open>A file with all six fragments, one after the other.\<close>

definition fixture_all :: string where
  \<open>fixture_all =
     join_lines [frag_state, frag_reset, frag_edit, frag_submit, frag_select, frag_project_item]\<close>

text \<open>A file without the state declaration and with the other five fragments (the reset call is part of the try block).\<close>

definition fixture_partial :: string where
  \<open>fixture_partial =
     join_lines [frag_edit, frag_submit, frag_select, frag_project_item]\<close>

text \<open>What the script makes of the two files.\<close>

definition fixture_all_out :: string where
  \<open>fixture_all_out =
     join_lines [new_state, new_reset, new_edit, submit_renamed, new_select, new_project_item]\<close>

definition fixture_partial_out :: string where
  \<open>fixture_partial_out =
     join_lines [new_edit, submit_renamed, new_select, new_project_item]\<close>

text \<open>A file with the try block of handleSubmit twice, and what the script makes of it.\<close>

definition fixture_two_blocks :: string where
  \<open>fixture_two_blocks = join_lines [frag_submit, frag_submit]\<close>

definition fixture_two_blocks_out :: string where
  \<open>fixture_two_blocks_out = join_lines [submit_renamed, submit_renamed]\<close>

text \<open>
  A stored text with a carriage return and line feed and with a carriage return alone,
  the text that reading it gives, and the text that the script writes for it.
\<close>

definition crlf_stored :: string where
  \<open>crlf_stored = frag_state @ [cr, nl] @ ''x'' @ [cr]\<close>

definition crlf_read :: string where
  \<open>crlf_read = frag_state @ [nl] @ ''x'' @ [nl]\<close>

definition crlf_written :: string where
  \<open>crlf_written = new_state @ [nl] @ ''x'' @ [nl]\<close>

text \<open>Worlds used in the statements: the target file alone, holding a given text.\<close>

definition world_with :: "string \<Rightarrow> world" where
  "world_with s =
     \<lparr>files = [target \<mapsto> \<lparr>readable = True, writable = True, contents = Text s\<rparr>],
      may_create = (\<lambda>p. False), argv = [], environ = Map.empty, trace = []\<rparr>"

text \<open>The same target file in a different world: another file, arguments, environment, earlier output.\<close>

definition world_other :: "string \<Rightarrow> world" where
  "world_other s =
     \<lparr>files = [''README.md'' \<mapsto> \<lparr>readable = True, writable = False, contents = Undecodable\<rparr>,
               target \<mapsto> \<lparr>readable = True, writable = True, contents = Text s\<rparr>],
      may_create = (\<lambda>p. True), argv = [''--check''], environ = [''HOME'' \<mapsto> ''/root''],
      trace = [Print ''earlier'']\<rparr>"


definition world_locked :: world where
  "world_locked =
     \<lparr>files = [target \<mapsto> \<lparr>readable = False, writable = True, contents = Text frag_reset\<rparr>],
      may_create = (\<lambda>p. True), argv = [], environ = Map.empty, trace = []\<rparr>"

text \<open>The world that a successful run on the target file alone leaves when it has read \<open>s\<close> and writes \<open>s'\<close>.\<close>

definition world_done :: "string \<Rightarrow> string \<Rightarrow> world" where
  "world_done s s' =
     \<lparr>files = [target \<mapsto> \<lparr>readable = True, writable = True, contents = Text s'\<rparr>],
      may_create = (\<lambda>p. False), argv = [], environ = Map.empty,
      trace = [Read target s, Write target s', Print success_line]\<rparr>"

text \<open>The target file with the same text, readable and not writable.\<close>

definition world_readonly :: "string \<Rightarrow> world" where
  "world_readonly s =
     \<lparr>files = [target \<mapsto> \<lparr>readable = True, writable = False, contents = Text s\<rparr>],
      may_create = (\<lambda>p. False), argv = [], environ = Map.empty, trace = []\<rparr>"


section \<open>Properties of the substitution\<close>

subsection \<open>Matching at the head, and texts without a match\<close>

lemma strip_prefix_Some: "strip_prefix p t = Some rest \<longleftrightarrow> t = p @ rest"
  by (induction p t rule: strip_prefix.induct) auto

lemma strip_prefix_None: "strip_prefix p t = None \<longleftrightarrow> \<not> prefix p t"
  by (induction p t rule: strip_prefix.induct) auto

declare sub_literal.simps [simp del]

lemma sub_literal_Nil: "p \<noteq> [] \<Longrightarrow> sub_literal p r [] = []"
  by (simp add: sub_literal.simps)

lemma sub_literal_match: "p \<noteq> [] \<Longrightarrow> sub_literal p r (p @ t) = r @ sub_literal p r t"
proof -
  assume p: "p \<noteq> []"
  then obtain c cs where t: "p @ t = c # cs" by (cases p) auto
  have "strip_prefix p (c # cs) = Some t" using t by (simp add: strip_prefix_Some)
  then show ?thesis using p t by (simp add: sub_literal.simps)
qed

lemma sub_literal_skip:
  "p \<noteq> [] \<Longrightarrow> \<not> prefix p (c # cs) \<Longrightarrow> sub_literal p r (c # cs) = c # sub_literal p r cs"
  by (simp add: sub_literal.simps strip_prefix_None[symmetric])

lemma sub_literal_no_match: "\<not> sublist p t \<Longrightarrow> sub_literal p r t = t"
proof (induction t)
  case Nil
  then show ?case by (auto simp: sub_literal.simps)
next
  case (Cons c cs)
  then have p: "p \<noteq> []" and np: "\<not> prefix p (c # cs)" and ns: "\<not> sublist p cs"
    by (auto simp: sublist_Cons_right)
  then show ?case using Cons.IH by (simp add: sub_literal_skip)
qed

text \<open>Splitting at a boundary that no occurrence of the pattern crosses.\<close>

lemma sub_literal_append:
  assumes "p \<noteq> []"
    and "\<And>u v. a @ b = u @ p @ v \<Longrightarrow> length u + length p \<le> length a \<or> length a \<le> length u"
  shows "sub_literal p r (a @ b) = sub_literal p r a @ sub_literal p r b"
  using assms(2)
proof (induction a rule: length_induct)
  case (1 a)
  show ?case
  proof (cases a)
    case Nil
    then show ?thesis using assms(1) by (simp add: sub_literal_Nil)
  next
    case (Cons c cs)
    show ?thesis
    proof (cases "prefix p (a @ b)")
      case True
      then obtain v where v: "a @ b = p @ v" by (auto simp: prefix_def)
      then have "a @ b = [] @ p @ v" by simp
      from "1.prems"[OF this] Cons have "length p \<le> length a" by simp
      with v obtain a' where a': "a = p @ a'" and v': "v = a' @ b"
        by (metis append_eq_append_conv_if append_take_drop_id)
      have len: "length a' < length a" using a' assms(1) by (cases p) auto
      have "sub_literal p r (a' @ b) = sub_literal p r a' @ sub_literal p r b"
      proof (rule "1.IH"[rule_format, OF len])
        fix u w assume "a' @ b = u @ p @ w"
        then have "a @ b = (p @ u) @ p @ w" using a' by simp
        from "1.prems"[OF this] show "length u + length p \<le> length a' \<or> length a' \<le> length u"
          using a' by auto
      qed
      then show ?thesis using a' assms(1) by (simp add: sub_literal_match)
    next
      case False
      then have np: "\<not> prefix p (c # (cs @ b))" using Cons by simp
      have np': "\<not> prefix p (c # cs)" using False Cons by (metis prefix_prefix)
      have "sub_literal p r (cs @ b) = sub_literal p r cs @ sub_literal p r b"
      proof (rule "1.IH"[rule_format])
        show "length cs < length a" using Cons by simp
      next
        fix u w assume "cs @ b = u @ p @ w"
        then have "a @ b = (c # u) @ p @ w" using Cons by simp
        from "1.prems"[OF this] show "length u + length p \<le> length cs \<or> length cs \<le> length u"
          using Cons by auto
      qed
      then show ?thesis using Cons assms(1) np np' by (simp add: sub_literal_skip)
    qed
  qed
qed

subsection \<open>Overlapping occurrences\<close>

text \<open>
  If \<open>q\<close> and \<open>x\<close> are apart, an occurrence of \<open>q\<close> in \<open>a @ x @ b\<close> lies in
  \<open>a\<close> or in \<open>b\<close>.  If \<open>p\<close> is unbordered, two occurrences of \<open>p\<close> are the same
  or do not overlap.
\<close>

lemma agree_iff: "agree xs ys \<longleftrightarrow> prefix xs ys \<or> prefix ys xs"
  by (induction xs ys rule: agree.induct) auto

lemma agree_append: "xs @ c = ys @ d \<Longrightarrow> agree xs ys"
  by (auto simp: agree_iff append_eq_append_conv2 prefix_def)

lemma meets_iff: "meets xs ys \<longleftrightarrow> (\<exists>s. s \<noteq> [] \<and> suffix s xs \<and> agree s ys)"
  by (induction xs) (auto simp: suffix_Cons)

lemma append_eq_split:
  "a @ b = c @ d \<Longrightarrow> length a \<le> length c \<Longrightarrow> \<exists>e. c = a @ e \<and> b = e @ d"
  by (auto simp: append_eq_append_conv2)

lemma apart_occ:
  assumes ap: "apart q x" and eq: "a @ x @ b = u @ q @ v"
  shows "length u + length q \<le> length a \<or> length a + length x \<le> length u"
proof (rule ccontr)
  assume "\<not> ?thesis"
  then have lt1: "length a < length u + length q" and lt2: "length u < length a + length x"
    by auto
  show False
  proof (cases "length a \<le> length u")
    case True
    from append_eq_split[OF eq True] obtain u' where u: "u = a @ u'" and x: "x @ b = u' @ q @ v"
      by auto
    have "length u' \<le> length x" using lt2 u by simp
    from append_eq_split[OF x[symmetric] this] obtain s where s: "x = u' @ s" and sb: "q @ v = s @ b"
      by auto
    have "s \<noteq> []" using lt2 u s by auto
    moreover have "suffix s x" using s by (simp add: suffix_def)
    moreover have "agree s q" using sb agree_append[of s b q v] by simp
    ultimately have "meets x q" by (auto simp: meets_iff)
    with ap show False by (simp add: apart_def)
  next
    case False
    then have "length u \<le> length a" by simp
    from append_eq_split[OF eq[symmetric] this] obtain a' where a: "a = u @ a'" and q: "q @ v = a' @ x @ b"
      by auto
    have "length a' \<le> length q" using lt1 a by simp
    from append_eq_split[OF q[symmetric] this] obtain s where s: "q = a' @ s" and sv: "x @ b = s @ v"
      by auto
    have "s \<noteq> []" using lt1 a s by auto
    moreover have "suffix s q" using s by (simp add: suffix_def)
    moreover have "agree s x" using sv agree_append[of s v x b] by simp
    ultimately have "meets q x" by (auto simp: meets_iff)
    with ap show False by (simp add: apart_def)
  qed
qed

lemma apart_not_sublist: "apart q x \<Longrightarrow> q \<noteq> [] \<Longrightarrow> \<not> sublist q x"
proof
  assume ap: "apart q x" and q: "q \<noteq> []" and "sublist q x"
  then obtain u v where "x = u @ q @ v" by (auto simp: sublist_def)
  then have "[] @ x @ [] = u @ q @ v" by simp
  from apart_occ[OF ap this] have "length x \<le> length u" using q by simp
  with \<open>x = u @ q @ v\<close> q show False by auto
qed

lemma apart_sublist_mid:
  assumes ap: "apart q x" and sub: "sublist q (a @ x @ b)"
  shows "sublist q a \<or> sublist q b"
proof -
  from sub obtain u v where eq: "a @ x @ b = u @ q @ v" by (auto simp: sublist_def)
  from apart_occ[OF ap eq] show ?thesis
  proof
    assume "length u + length q \<le> length a"
    then have "length (u @ q) \<le> length a" by simp
    from append_eq_split[OF _ this, of v "x @ b"] eq obtain e where "a = (u @ q) @ e" by auto
    then show ?thesis by (auto simp: sublist_def)
  next
    assume "length a + length x \<le> length u"
    then have "length (a @ x) \<le> length u" by simp
    from append_eq_split[OF _ this, of b "q @ v"] eq obtain e where "b = e @ q @ v" by auto
    then show ?thesis by (auto simp: sublist_def)
  qed
qed

lemma unbordered_occ_less:
  assumes un: "unbordered p" and eq: "a @ p @ b = u @ p @ v" and lt: "length a < length u"
  shows "length a + length p \<le> length u"
proof (rule ccontr)
  assume "\<not> ?thesis"
  then have lt2: "length u < length a + length p" by simp
  from lt have "length a \<le> length u" by simp
  from append_eq_split[OF eq this] obtain u' where u: "u = a @ u'" and pb: "p @ b = u' @ p @ v"
    by auto
  have u': "u' \<noteq> []" using lt u by auto
  have "length u' \<le> length p" using lt2 u by simp
  from append_eq_split[OF pb[symmetric] this] obtain s where s: "p = u' @ s" and sb: "p @ v = s @ b"
    by auto
  have "s \<noteq> []" using lt2 u s by auto
  moreover have "suffix s (tl p)" using s u' by (cases u') (auto simp: suffix_def)
  moreover have "agree s p" using sb agree_append[of s b p v] by simp
  ultimately have "meets (tl p) p" by (auto simp: meets_iff)
  with un show False by (simp add: unbordered_def)
qed

lemma unbordered_occ:
  assumes un: "unbordered p" and eq: "a @ p @ b = u @ p @ v"
  shows "a = u \<or> length u + length p \<le> length a \<or> length a + length p \<le> length u"
proof -
  consider "length a < length u" | "length u < length a" | "length a = length u" by linarith
  then show ?thesis
  proof cases
    case 1
    from unbordered_occ_less[OF un eq 1] show ?thesis by simp
  next
    case 2
    from unbordered_occ_less[OF un eq[symmetric] 2] show ?thesis by simp
  next
    case 3
    with eq show ?thesis by simp
  qed
qed

subsection \<open>A substitution passes over what it cannot touch\<close>

lemma sub_literal_middle:
  assumes p: "p \<noteq> []" and ap: "apart p x"
  shows "sub_literal p r (a @ x @ b) = sub_literal p r a @ x @ sub_literal p r b"
proof -
  have 1: "sub_literal p r (a @ x @ b) = sub_literal p r a @ sub_literal p r (x @ b)"
  proof (rule sub_literal_append[OF p])
    fix u v assume "a @ x @ b = u @ p @ v"
    from apart_occ[OF ap this] show "length u + length p \<le> length a \<or> length a \<le> length u"
      by auto
  qed
  have 2: "sub_literal p r (x @ b) = sub_literal p r x @ sub_literal p r b"
  proof (rule sub_literal_append[OF p])
    fix u v assume "x @ b = u @ p @ v"
    then have "[] @ x @ b = u @ p @ v" by simp
    from apart_occ[OF ap this] show "length u + length p \<le> length x \<or> length x \<le> length u"
      by auto
  qed
  have 3: "sub_literal p r x = x"
    by (rule sub_literal_no_match) (rule apart_not_sublist[OF ap p])
  show ?thesis by (simp add: 1 2 3)
qed

lemma sub_literal_self_middle:
  assumes un: "unbordered p"
  shows "sub_literal p r (a @ p @ b) = sub_literal p r a @ r @ sub_literal p r b"
proof -
  have p: "p \<noteq> []" using un by (simp add: unbordered_def)
  have "sub_literal p r (a @ p @ b) = sub_literal p r a @ sub_literal p r (p @ b)"
  proof (rule sub_literal_append[OF p])
    fix u v assume "a @ p @ b = u @ p @ v"
    from unbordered_occ[OF un this] show "length u + length p \<le> length a \<or> length a \<le> length u"
      by auto
  qed
  then show ?thesis by (simp add: sub_literal_match[OF p])
qed

subsection \<open>What a substitution cannot create, and what it removes\<close>

text \<open>
  A replacement that is apart from \<open>q\<close> brings no occurrence of \<open>q\<close> into a text
  that had none.  A replacement that is apart from its own pattern leaves no occurrence
  of the pattern.
\<close>

lemma sub_literal_absent_ctx:
  assumes p: "p \<noteq> []" and ap: "apart q r"
  shows "\<not> sublist q (w @ t) \<Longrightarrow> \<not> sublist q (w @ sub_literal p r t)"
proof (induction t arbitrary: w rule: length_induct)
  case (1 t)
  show ?case
  proof (cases t)
    case Nil
    with "1.prems" p show ?thesis by (simp add: sub_literal_Nil)
  next
    case (Cons c cs)
    show ?thesis
    proof (cases "prefix p t")
      case True
      then obtain t' where t': "t = p @ t'" by (auto simp: prefix_def)
      have len: "length t' < length t" using t' p by (cases p) auto
      have "\<not> sublist q ((w @ r) @ t')"
      proof
        assume "sublist q ((w @ r) @ t')"
        then have "sublist q (w @ r @ t')" by simp
        from apart_sublist_mid[OF ap this] have "sublist q (w @ t)"
          using t' by (auto simp: sublist_append)
        with "1.prems" show False by simp
      qed
      from "1.IH"[rule_format, OF len this] show ?thesis
        using t' p by (simp add: sub_literal_match)
    next
      case False
      have "\<not> sublist q ((w @ [c]) @ cs)" using "1.prems" Cons by simp
      from "1.IH"[rule_format, OF _ this] Cons False p show ?thesis
        by (simp add: sub_literal_skip)
    qed
  qed
qed

lemma sub_literal_absent:
  "p \<noteq> [] \<Longrightarrow> apart q r \<Longrightarrow> \<not> sublist q t \<Longrightarrow> \<not> sublist q (sub_literal p r t)"
  using sub_literal_absent_ctx[of p q r "[]" t] by simp

lemma sub_literal_removes_ctx:
  assumes p: "p \<noteq> []" and ap: "apart p r"
  shows "(\<And>u v. w @ t = u @ p @ v \<Longrightarrow> length w \<le> length u)
    \<Longrightarrow> \<not> sublist p (w @ sub_literal p r t)"
proof (induction t arbitrary: w rule: length_induct)
  case (1 t)
  show ?case
  proof (cases t)
    case Nil
    show ?thesis
    proof
      assume "sublist p (w @ sub_literal p r t)"
      then obtain u v where w: "w = u @ p @ v" using Nil p by (auto simp: sub_literal_Nil sublist_def)
      then have "w @ t = u @ p @ v" using Nil by simp
      from "1.prems"[OF this] w p show False by auto
    qed
  next
    case (Cons c cs)
    show ?thesis
    proof (cases "prefix p t")
      case True
      then obtain t' where t': "t = p @ t'" by (auto simp: prefix_def)
      have len: "length t' < length t" using t' p by (cases p) auto
      have "\<not> sublist p ((w @ r) @ sub_literal p r t')"
      proof (rule "1.IH"[rule_format, OF len])
        fix u v assume eq: "(w @ r) @ t' = u @ p @ v"
        then have eq': "w @ r @ t' = u @ p @ v" by simp
        from apart_occ[OF ap eq'] show "length (w @ r) \<le> length u"
        proof
          assume le: "length u + length p \<le> length w"
          then have "length (u @ p) \<le> length w" by simp
          from append_eq_split[OF _ this, of v "r @ t'"] eq' obtain e where "w = (u @ p) @ e"
            by auto
          then have "w @ t = u @ p @ (e @ t)" by simp
          from "1.prems"[OF this] le p show ?thesis by (cases p) auto
        next
          assume "length w + length r \<le> length u"
          then show ?thesis by simp
        qed
      qed
      then show ?thesis using t' p by (simp add: sub_literal_match)
    next
      case False
      have "\<not> sublist p ((w @ [c]) @ sub_literal p r cs)"
      proof (rule "1.IH"[rule_format])
        show "length cs < length t" using Cons by simp
      next
        fix u v assume eq: "(w @ [c]) @ cs = u @ p @ v"
        then have eq': "w @ t = u @ p @ v" using Cons by simp
        from "1.prems"[OF this] have le: "length w \<le> length u" .
        have "length w \<noteq> length u"
        proof
          assume "length w = length u"
          with eq' have "t = p @ v" by simp
          with False show False by (simp add: prefix_def)
        qed
        with le show "length (w @ [c]) \<le> length u" by simp
      qed
      then show ?thesis using Cons False p by (simp add: sub_literal_skip)
    qed
  qed
qed

lemma sub_literal_removes:
  "p \<noteq> [] \<Longrightarrow> apart p r \<Longrightarrow> \<not> sublist p (sub_literal p r t)"
  using sub_literal_removes_ctx[of p r "[]" t] by simp

subsection \<open>Pieces and occurrences\<close>

lemma join_Cons: "us \<noteq> [] \<Longrightarrow> join p (u # us) = u @ p @ join p us"
  by (cases us) auto

lemma sub_literal_frame:
  assumes p: "p \<noteq> []"
  shows "\<exists>us. us \<noteq> [] \<and> t = join p us \<and> sub_literal p r t = join r us
            \<and> list_all (\<lambda>u. \<not> sublist p u) us"
proof (induction t rule: length_induct)
  case (1 t)
  show ?case
  proof (cases t)
    case Nil
    have "[[]] \<noteq> [] \<and> t = join p [[]] \<and> sub_literal p r t = join r [[]]
        \<and> list_all (\<lambda>u. \<not> sublist p u) [[]]"
      using Nil p by (simp add: sub_literal_Nil)
    then show ?thesis by blast
  next
    case (Cons c cs)
    show ?thesis
    proof (cases "prefix p t")
      case True
      then obtain t' where t': "t = p @ t'" by (auto simp: prefix_def)
      have len: "length t' < length t" using t' p by (cases p) auto
      from "1.IH"[rule_format, OF len] obtain us where us: "us \<noteq> []" "t' = join p us"
        "sub_literal p r t' = join r us" "list_all (\<lambda>u. \<not> sublist p u) us" by blast
      have "[] # us \<noteq> [] \<and> t = join p ([] # us) \<and> sub_literal p r t = join r ([] # us)
          \<and> list_all (\<lambda>u. \<not> sublist p u) ([] # us)"
        using us t' p by (simp add: join_Cons sub_literal_match)
      then show ?thesis by blast
    next
      case False
      have "length cs < length t" using Cons by simp
      from "1.IH"[rule_format, OF this] obtain us where us: "us \<noteq> []" "cs = join p us"
        "sub_literal p r cs = join r us" "list_all (\<lambda>u. \<not> sublist p u) us" by blast
      then obtain u0 rest where u0: "us = u0 # rest" by (cases us) auto
      have pre: "prefix (c # u0) t" using Cons us(2) u0 by (cases rest) auto
      have "\<not> sublist p (c # u0)"
      proof
        assume "sublist p (c # u0)"
        then have "prefix p (c # u0)" using us(4) u0 by (simp add: sublist_Cons_right)
        with pre False show False by (metis prefix_order.order_trans)
      qed
      then have "(c # u0) # rest \<noteq> [] \<and> t = join p ((c # u0) # rest)
          \<and> sub_literal p r t = join r ((c # u0) # rest)
          \<and> list_all (\<lambda>u. \<not> sublist p u) ((c # u0) # rest)"
        using us u0 Cons False p by (cases rest) (simp_all add: sub_literal_skip)
      then show ?thesis by blast
    qed
  qed
qed

lemma sub_literal_join:
  assumes un: "unbordered p"
  shows "sub_literal p r (join p us) = join r (map (sub_literal p r) us)"
proof (induction us)
  case Nil
  then show ?case using un by (simp add: unbordered_def sub_literal_Nil)
next
  case (Cons u us)
  show ?case
  proof (cases "us = []")
    case True
    then show ?thesis by simp
  next
    case False
    have "sub_literal p r (u @ p @ join p us)
        = sub_literal p r u @ r @ sub_literal p r (join p us)"
      by (rule sub_literal_self_middle[OF un])
    with Cons False show ?thesis by (simp add: join_Cons)
  qed
qed

subsection \<open>Rules for evaluating on concrete strings\<close>

text \<open>Two different characters differ in some bit; one rule per bit decides it in one step.\<close>

lemma char_neq:
  "(Char True a2 a3 a4 a5 a6 a7 a8 = Char False b2 b3 b4 b5 b6 b7 b8) = False"
  "(Char False a2 a3 a4 a5 a6 a7 a8 = Char True b2 b3 b4 b5 b6 b7 b8) = False"
  "(Char a1 True a3 a4 a5 a6 a7 a8 = Char b1 False b3 b4 b5 b6 b7 b8) = False"
  "(Char a1 False a3 a4 a5 a6 a7 a8 = Char b1 True b3 b4 b5 b6 b7 b8) = False"
  "(Char a1 a2 True a4 a5 a6 a7 a8 = Char b1 b2 False b4 b5 b6 b7 b8) = False"
  "(Char a1 a2 False a4 a5 a6 a7 a8 = Char b1 b2 True b4 b5 b6 b7 b8) = False"
  "(Char a1 a2 a3 True a5 a6 a7 a8 = Char b1 b2 b3 False b5 b6 b7 b8) = False"
  "(Char a1 a2 a3 False a5 a6 a7 a8 = Char b1 b2 b3 True b5 b6 b7 b8) = False"
  "(Char a1 a2 a3 a4 True a6 a7 a8 = Char b1 b2 b3 b4 False b6 b7 b8) = False"
  "(Char a1 a2 a3 a4 False a6 a7 a8 = Char b1 b2 b3 b4 True b6 b7 b8) = False"
  "(Char a1 a2 a3 a4 a5 True a7 a8 = Char b1 b2 b3 b4 b5 False b7 b8) = False"
  "(Char a1 a2 a3 a4 a5 False a7 a8 = Char b1 b2 b3 b4 b5 True b7 b8) = False"
  "(Char a1 a2 a3 a4 a5 a6 True a8 = Char b1 b2 b3 b4 b5 b6 False b8) = False"
  "(Char a1 a2 a3 a4 a5 a6 False a8 = Char b1 b2 b3 b4 b5 b6 True b8) = False"
  "(Char a1 a2 a3 a4 a5 a6 a7 True = Char b1 b2 b3 b4 b5 b6 b7 False) = False"
  "(Char a1 a2 a3 a4 a5 a6 a7 False = Char b1 b2 b3 b4 b5 b6 b7 True) = False"
  by simp_all

lemma char_eq_refl: "((c::char) = c) = True"
  by simp

lemma re_literal_eval:
  "re_literal (c # d # ds) = re_literal_case (classify c d) c d ds"
  by (auto simp: classify_def)

lemma strip_prefix_eval:
  "strip_prefix (x # xs) (y # ys) = strip_if (x = y) xs ys"
  "strip_if True xs ys = strip_prefix xs ys"
  "strip_if False xs ys = None"
  by (simp_all add: strip_if_def)

lemma sub_literal_eval:
  "sub_literal (x # xs) r [] = []"
  "sub_literal (x # xs) r (c # cs) = sub_case (strip_if (x = c) xs cs) (x # xs) r c cs"
  by (auto simp: sub_literal.simps strip_if_def split: option.splits)

lemma agree_eval:
  "agree (x # xs) (y # ys) = agree_if (x = y) xs ys"
  "agree_if True xs ys = agree xs ys"
  "agree_if False xs ys = False"
  by (simp_all add: agree_if_def)

lemma prefix_eval:
  "prefix (x # xs) (y # ys) = prefix_if (x = y) xs ys"
  "prefix_if True xs ys = prefix xs ys"
  "prefix_if False xs ys = False"
  "prefix [] ys = True"
  "prefix (x # xs) [] = False"
  by (simp_all add: prefix_if_def)

lemmas text_eval = join_lines.simps append.simps char_neq char_eq_refl simp_thms

lemmas literal_eval =
  text_eval re_literal.simps(1,2) re_literal_eval re_literal_case.simps classify_def
  is_alnum_def is_operator_def list.set insert_iff empty_iff if_True if_False
  option.map

lemmas meets_eval = text_eval meets.simps agree.simps(1,2) agree_eval list.sel

lemmas sub_eval =
  text_eval sub_literal_eval sub_case.simps strip_prefix.simps(1,2) strip_prefix_eval

lemmas sublist_eval = text_eval sublist_code prefix_eval

section \<open>Facts about the six patterns\<close>

subsection \<open>Each pattern matches exactly its fragment; each replacement is inserted as it is\<close>

lemma lit_state: "re_literal old_state = Some frag_state"
  by (simp only: old_state_def frag_state_def literal_eval)

lemma lit_reset: "re_literal old_reset = Some frag_reset"
  by (simp only: old_reset_def frag_reset_def literal_eval)

lemma lit_edit: "re_literal old_edit = Some frag_edit"
  by (simp only: old_edit_def frag_edit_def literal_eval)

lemma lit_submit: "re_literal old_submit = Some frag_submit"
  by (simp only: old_submit_def frag_submit_def literal_eval)

lemma lit_select: "re_literal old_select = Some frag_select"
  by (simp only: old_select_def frag_select_def literal_eval)

lemma lit_project_item: "re_literal old_project_item = Some frag_project_item"
  by (simp only: old_project_item_def frag_project_item_def literal_eval)

lemma tpl_state: "re_template new_state = Some new_state"
  unfolding re_template_def
  by (simp only: new_state_def text_eval list.set insert_iff empty_iff if_False)

lemma tpl_reset: "re_template new_reset = Some new_reset"
  unfolding re_template_def
  by (simp only: new_reset_def text_eval list.set insert_iff empty_iff if_False)

lemma tpl_edit: "re_template new_edit = Some new_edit"
  unfolding re_template_def
  by (simp only: new_edit_def text_eval list.set insert_iff empty_iff if_False)

lemma tpl_submit: "re_template new_submit = Some new_submit"
  unfolding re_template_def
  by (simp only: new_submit_def text_eval list.set insert_iff empty_iff if_False)

lemma tpl_select: "re_template new_select = Some new_select"
  unfolding re_template_def
  by (simp only: new_select_def text_eval list.set insert_iff empty_iff if_False)

lemma tpl_project_item: "re_template new_project_item = Some new_project_item"
  unfolding re_template_def
  by (simp only: new_project_item_def text_eval list.set insert_iff empty_iff if_False)

lemma ne_state: "frag_state \<noteq> []"
  by (simp only: frag_state_def text_eval list.distinct)

lemma ne_reset: "frag_reset \<noteq> []"
  by (simp only: frag_reset_def text_eval list.distinct)

lemma ne_edit: "frag_edit \<noteq> []"
  by (simp only: frag_edit_def text_eval list.distinct)

lemma ne_submit: "frag_submit \<noteq> []"
  by (simp only: frag_submit_def text_eval list.distinct)

lemma ne_select: "frag_select \<noteq> []"
  by (simp only: frag_select_def text_eval list.distinct)

lemma ne_project_item: "frag_project_item \<noteq> []"
  by (simp only: frag_project_item_def text_eval list.distinct)

subsection \<open>No occurrence of a fragment overlaps itself\<close>

lemma unb_state: "unbordered frag_state"
  unfolding unbordered_def
  by (simp only: frag_state_def meets_eval list.distinct)

lemma unb_reset: "unbordered frag_reset"
  unfolding unbordered_def
  by (simp only: frag_reset_def meets_eval list.distinct)

lemma unb_edit: "unbordered frag_edit"
  unfolding unbordered_def
  by (simp only: frag_edit_def meets_eval list.distinct)

lemma unb_submit: "unbordered frag_submit"
  unfolding unbordered_def
  by (simp only: frag_submit_def meets_eval list.distinct)

lemma unb_select: "unbordered frag_select"
  unfolding unbordered_def
  by (simp only: frag_select_def meets_eval list.distinct)

lemma unb_project_item: "unbordered frag_project_item"
  unfolding unbordered_def
  by (simp only: frag_project_item_def meets_eval list.distinct)

subsection \<open>No occurrence of a fragment overlaps a replacement\<close>

lemma apart_state_state: "apart frag_state new_state"
  unfolding apart_def
  by (simp only: frag_state_def new_state_def meets_eval)

lemma apart_state_reset: "apart frag_state new_reset"
  unfolding apart_def
  by (simp only: frag_state_def new_reset_def meets_eval)

lemma apart_state_edit: "apart frag_state new_edit"
  unfolding apart_def
  by (simp only: frag_state_def new_edit_def meets_eval)

lemma apart_state_select: "apart frag_state new_select"
  unfolding apart_def
  by (simp only: frag_state_def new_select_def meets_eval)

lemma apart_state_project_item: "apart frag_state new_project_item"
  unfolding apart_def
  by (simp only: frag_state_def new_project_item_def meets_eval)

lemma apart_reset_state: "apart frag_reset new_state"
  unfolding apart_def
  by (simp only: frag_reset_def new_state_def meets_eval)

lemma apart_reset_reset: "apart frag_reset new_reset"
  unfolding apart_def
  by (simp only: frag_reset_def new_reset_def meets_eval)

lemma apart_reset_edit: "apart frag_reset new_edit"
  unfolding apart_def
  by (simp only: frag_reset_def new_edit_def meets_eval)

lemma apart_reset_select: "apart frag_reset new_select"
  unfolding apart_def
  by (simp only: frag_reset_def new_select_def meets_eval)

lemma apart_reset_project_item: "apart frag_reset new_project_item"
  unfolding apart_def
  by (simp only: frag_reset_def new_project_item_def meets_eval)

lemma apart_edit_state: "apart frag_edit new_state"
  unfolding apart_def
  by (simp only: frag_edit_def new_state_def meets_eval)

lemma apart_edit_edit: "apart frag_edit new_edit"
  unfolding apart_def
  by (simp only: frag_edit_def new_edit_def meets_eval)

lemma apart_edit_select: "apart frag_edit new_select"
  unfolding apart_def
  by (simp only: frag_edit_def new_select_def meets_eval)

lemma apart_edit_project_item: "apart frag_edit new_project_item"
  unfolding apart_def
  by (simp only: frag_edit_def new_project_item_def meets_eval)

lemma apart_select_state: "apart frag_select new_state"
  unfolding apart_def
  by (simp only: frag_select_def new_state_def meets_eval)

lemma apart_select_select: "apart frag_select new_select"
  unfolding apart_def
  by (simp only: frag_select_def new_select_def meets_eval)

lemma apart_select_project_item: "apart frag_select new_project_item"
  unfolding apart_def
  by (simp only: frag_select_def new_project_item_def meets_eval)

lemma apart_project_item_state: "apart frag_project_item new_state"
  unfolding apart_def
  by (simp only: frag_project_item_def new_state_def meets_eval)

lemma apart_project_item_project_item: "apart frag_project_item new_project_item"
  unfolding apart_def
  by (simp only: frag_project_item_def new_project_item_def meets_eval)

subsection \<open>The state declaration around its line, the try block around the reset call\<close>

lemma frag_state_split: "frag_state = ctx_before @ old_line @ ctx_after"
  by (simp only: frag_state_def ctx_before_def old_line_def ctx_after_def text_eval)

lemma new_state_split: "new_state = ctx_before @ new_line @ ctx_after"
  by (simp only: new_state_def ctx_before_def new_line_def ctx_after_def text_eval)

lemma frag_submit_split: "frag_submit = submit_before @ frag_reset @ submit_after"
  by (simp only: frag_submit_def submit_before_def frag_reset_def submit_after_def text_eval)

lemma unb_old_line: "unbordered old_line"
  unfolding unbordered_def
  by (simp only: old_line_def meets_eval list.distinct)

lemma apart_before_line: "apart ctx_before old_line"
  unfolding apart_def
  by (simp only: ctx_before_def old_line_def meets_eval)

lemma apart_after_line: "apart ctx_after old_line"
  unfolding apart_def
  by (simp only: ctx_after_def old_line_def meets_eval)

lemma apart_reset_line: "apart frag_reset old_line"
  unfolding apart_def
  by (simp only: frag_reset_def old_line_def meets_eval)

lemma apart_edit_line: "apart frag_edit old_line"
  unfolding apart_def
  by (simp only: frag_edit_def old_line_def meets_eval)

lemma apart_select_line: "apart frag_select old_line"
  unfolding apart_def
  by (simp only: frag_select_def old_line_def meets_eval)

lemma apart_project_item_line: "apart frag_project_item old_line"
  unfolding apart_def
  by (simp only: frag_project_item_def old_line_def meets_eval)

subsection \<open>No occurrence of a fragment overlaps another fragment or a replacement made before it\<close>

lemma apart_state_frag_reset: "apart frag_state frag_reset"
  unfolding apart_def
  by (simp only: frag_state_def frag_reset_def meets_eval)

lemma apart_state_frag_edit: "apart frag_state frag_edit"
  unfolding apart_def
  by (simp only: frag_state_def frag_edit_def meets_eval)

lemma apart_state_frag_select: "apart frag_state frag_select"
  unfolding apart_def
  by (simp only: frag_state_def frag_select_def meets_eval)

lemma apart_state_frag_project_item: "apart frag_state frag_project_item"
  unfolding apart_def
  by (simp only: frag_state_def frag_project_item_def meets_eval)

lemma apart_reset_frag_edit: "apart frag_reset frag_edit"
  unfolding apart_def
  by (simp only: frag_reset_def frag_edit_def meets_eval)

lemma apart_reset_frag_select: "apart frag_reset frag_select"
  unfolding apart_def
  by (simp only: frag_reset_def frag_select_def meets_eval)

lemma apart_reset_frag_project_item: "apart frag_reset frag_project_item"
  unfolding apart_def
  by (simp only: frag_reset_def frag_project_item_def meets_eval)

lemma apart_edit_frag_select: "apart frag_edit frag_select"
  unfolding apart_def
  by (simp only: frag_edit_def frag_select_def meets_eval)

lemma apart_edit_frag_project_item: "apart frag_edit frag_project_item"
  unfolding apart_def
  by (simp only: frag_edit_def frag_project_item_def meets_eval)

lemma apart_select_frag_project_item: "apart frag_select frag_project_item"
  unfolding apart_def
  by (simp only: frag_select_def frag_project_item_def meets_eval)

lemma apart_state_frag_submit: "apart frag_state frag_submit"
  unfolding apart_def
  by (simp only: frag_state_def frag_submit_def meets_eval)

lemma apart_edit_reset: "apart frag_edit new_reset"
  unfolding apart_def
  by (simp only: frag_edit_def new_reset_def meets_eval)

lemma apart_select_reset: "apart frag_select new_reset"
  unfolding apart_def
  by (simp only: frag_select_def new_reset_def meets_eval)

lemma apart_select_edit: "apart frag_select new_edit"
  unfolding apart_def
  by (simp only: frag_select_def new_edit_def meets_eval)

lemma apart_project_item_reset: "apart frag_project_item new_reset"
  unfolding apart_def
  by (simp only: frag_project_item_def new_reset_def meets_eval)

lemma apart_project_item_edit: "apart frag_project_item new_edit"
  unfolding apart_def
  by (simp only: frag_project_item_def new_edit_def meets_eval)

lemma apart_project_item_select: "apart frag_project_item new_select"
  unfolding apart_def
  by (simp only: frag_project_item_def new_select_def meets_eval)

subsection \<open>The try block once its reset call is renamed\<close>

lemma apart_reset_submit_before: "apart frag_reset submit_before"
  unfolding apart_def
  by (simp only: frag_reset_def submit_before_def meets_eval)

lemma apart_reset_submit_after: "apart frag_reset submit_after"
  unfolding apart_def
  by (simp only: frag_reset_def submit_after_def meets_eval)

lemma apart_edit_renamed: "apart frag_edit submit_renamed"
  unfolding apart_def submit_renamed_def
  by (simp only: frag_edit_def submit_before_def new_reset_def submit_after_def meets_eval)

lemma apart_select_renamed: "apart frag_select submit_renamed"
  unfolding apart_def submit_renamed_def
  by (simp only: frag_select_def submit_before_def new_reset_def submit_after_def meets_eval)

lemma apart_project_item_renamed: "apart frag_project_item submit_renamed"
  unfolding apart_def submit_renamed_def
  by (simp only: frag_project_item_def submit_before_def new_reset_def submit_after_def meets_eval)

section \<open>The pipeline\<close>

subsection \<open>The script's calls are substitutions of the fragments\<close>

lemma re_sub_literal:
  "re_literal pattern = Some p \<Longrightarrow> re_template repl = Some r
    \<Longrightarrow> re_sub pattern repl text flags = Some (sub_literal p r text)"
  by (simp add: re_sub_def)

lemma apply_all_unfold:
  "apply_all transformations t =
     sub_project_item (sub_select (sub_submit (sub_edit (sub_reset (sub_state t)))))"
  by (simp add: apply_all_def transformations_def)

lemma rewrite_total: "rewrite t = Some (apply_all transformations t)"
  by (simp add: rewrite_def apply_all_unfold
      re_sub_literal[OF lit_state tpl_state] re_sub_literal[OF lit_reset tpl_reset]
      re_sub_literal[OF lit_edit tpl_edit] re_sub_literal[OF lit_submit tpl_submit]
      re_sub_literal[OF lit_select tpl_select]
      re_sub_literal[OF lit_project_item tpl_project_item])

subsection \<open>The fourth substitution never finds its fragment\<close>

text \<open>
  The try block of handleSubmit contains the reset call.  The second substitution has
  replaced every reset call before the fourth one runs, and the third does not bring
  one back.
\<close>

lemma sublist_reset_submit: "sublist frag_reset frag_submit"
  unfolding frag_submit_split by (rule sublist_appendI)

lemma sub_submit_idle: "\<not> sublist frag_reset t \<Longrightarrow> sub_submit t = t"
proof (rule sub_literal_no_match)
  assume a: "\<not> sublist frag_reset t"
  show "\<not> sublist frag_submit t"
  proof
    assume "sublist frag_submit t"
    with sublist_reset_submit have "sublist frag_reset t"
      by (rule sublist_order.order_trans)
    with a show False by simp
  qed
qed

lemma no_reset_after_edit: "\<not> sublist frag_reset (sub_edit (sub_reset t))"
  by (intro sub_literal_absent[OF ne_edit apart_reset_edit]
        sub_literal_removes[OF ne_reset apart_reset_reset])

lemma apply_all_live:
  "apply_all transformations t = sub_project_item (sub_select (sub_edit (sub_reset (sub_state t))))"
  by (simp add: apply_all_unfold sub_submit_idle[OF no_reset_after_edit])

subsection \<open>No fragment is left after the run\<close>

lemma absent_state: "\<not> sublist frag_state (apply_all transformations t)"
  unfolding apply_all_live
  by (intro sub_literal_absent[OF ne_project_item apart_state_project_item]
        sub_literal_absent[OF ne_select apart_state_select]
        sub_literal_absent[OF ne_edit apart_state_edit]
        sub_literal_absent[OF ne_reset apart_state_reset]
        sub_literal_removes[OF ne_state apart_state_state])

lemma absent_reset: "\<not> sublist frag_reset (apply_all transformations t)"
  unfolding apply_all_live
  by (intro sub_literal_absent[OF ne_project_item apart_reset_project_item]
        sub_literal_absent[OF ne_select apart_reset_select]
        sub_literal_absent[OF ne_edit apart_reset_edit]
        sub_literal_removes[OF ne_reset apart_reset_reset])

lemma absent_edit: "\<not> sublist frag_edit (apply_all transformations t)"
  unfolding apply_all_live
  by (intro sub_literal_absent[OF ne_project_item apart_edit_project_item]
        sub_literal_absent[OF ne_select apart_edit_select]
        sub_literal_removes[OF ne_edit apart_edit_edit])

lemma absent_select: "\<not> sublist frag_select (apply_all transformations t)"
  unfolding apply_all_live
  by (intro sub_literal_absent[OF ne_project_item apart_select_project_item]
        sub_literal_removes[OF ne_select apart_select_select])

lemma absent_project_item: "\<not> sublist frag_project_item (apply_all transformations t)"
  unfolding apply_all_live
  by (intro sub_literal_removes[OF ne_project_item apart_project_item_project_item])

lemma absent_submit: "\<not> sublist frag_submit (apply_all transformations t)"
proof
  assume "sublist frag_submit (apply_all transformations t)"
  with sublist_reset_submit have "sublist frag_reset (apply_all transformations t)"
    by (rule sublist_order.order_trans)
  with absent_reset show False by simp
qed

lemma apply_all_fixpoint:
  "apply_all transformations (apply_all transformations t) = apply_all transformations t"
proof -
  define x where "x = apply_all transformations t"
  have "sub_state x = x" "sub_reset x = x" "sub_edit x = x" "sub_submit x = x"
    "sub_select x = x" "sub_project_item x = x"
    unfolding x_def
    by (intro sub_literal_no_match absent_state absent_reset absent_edit absent_submit
          absent_select absent_project_item)+
  then have "apply_all transformations x = x"
    by (simp add: apply_all_unfold)
  then show ?thesis by (simp add: x_def)
qed

subsection \<open>Every occurrence of a fragment is rewritten where it stands\<close>

text \<open>
  For five of the six fragments the pipeline replaces an occurrence by the replacement
  and rewrites the text before it and the text after it on their own.  The try block of
  handleSubmit comes out with its reset call renamed and is otherwise unchanged.
\<close>

lemma apply_all_state:
  "apply_all transformations (u @ frag_state @ v)
     = apply_all transformations u @ new_state @ apply_all transformations v"
  by (simp add: apply_all_live sub_literal_self_middle[OF unb_state]
      sub_literal_middle[OF ne_reset apart_reset_state]
      sub_literal_middle[OF ne_edit apart_edit_state]
      sub_literal_middle[OF ne_select apart_select_state]
      sub_literal_middle[OF ne_project_item apart_project_item_state])

lemma apply_all_reset:
  "apply_all transformations (u @ frag_reset @ v)
     = apply_all transformations u @ new_reset @ apply_all transformations v"
  by (simp add: apply_all_live sub_literal_self_middle[OF unb_reset]
      sub_literal_middle[OF ne_state apart_state_frag_reset]
      sub_literal_middle[OF ne_edit apart_edit_reset]
      sub_literal_middle[OF ne_select apart_select_reset]
      sub_literal_middle[OF ne_project_item apart_project_item_reset])

lemma apply_all_edit:
  "apply_all transformations (u @ frag_edit @ v)
     = apply_all transformations u @ new_edit @ apply_all transformations v"
  by (simp add: apply_all_live sub_literal_self_middle[OF unb_edit]
      sub_literal_middle[OF ne_state apart_state_frag_edit]
      sub_literal_middle[OF ne_reset apart_reset_frag_edit]
      sub_literal_middle[OF ne_select apart_select_edit]
      sub_literal_middle[OF ne_project_item apart_project_item_edit])

lemma apply_all_select:
  "apply_all transformations (u @ frag_select @ v)
     = apply_all transformations u @ new_select @ apply_all transformations v"
  by (simp add: apply_all_live sub_literal_self_middle[OF unb_select]
      sub_literal_middle[OF ne_state apart_state_frag_select]
      sub_literal_middle[OF ne_reset apart_reset_frag_select]
      sub_literal_middle[OF ne_edit apart_edit_frag_select]
      sub_literal_middle[OF ne_project_item apart_project_item_select])

lemma apply_all_project_item:
  "apply_all transformations (u @ frag_project_item @ v)
     = apply_all transformations u @ new_project_item @ apply_all transformations v"
  by (simp add: apply_all_live sub_literal_self_middle[OF unb_project_item]
      sub_literal_middle[OF ne_state apart_state_frag_project_item]
      sub_literal_middle[OF ne_reset apart_reset_frag_project_item]
      sub_literal_middle[OF ne_edit apart_edit_frag_project_item]
      sub_literal_middle[OF ne_select apart_select_frag_project_item])

lemma sub_reset_submit:
  "sub_reset (a @ frag_submit @ b) = sub_reset a @ submit_renamed @ sub_reset b"
proof -
  have "sub_reset (a @ frag_submit @ b)
      = sub_reset ((a @ submit_before) @ frag_reset @ (submit_after @ b))"
    by (simp add: frag_submit_split)
  also have "\<dots> = sub_reset (a @ submit_before) @ new_reset @ sub_reset (submit_after @ b)"
    by (rule sub_literal_self_middle[OF unb_reset])
  also have "sub_reset (a @ submit_before) = sub_reset a @ submit_before"
    using sub_literal_middle[OF ne_reset apart_reset_submit_before, of new_reset a "[]"]
    by (simp add: sub_literal_Nil[OF ne_reset])
  also have "sub_reset (submit_after @ b) = submit_after @ sub_reset b"
    using sub_literal_middle[OF ne_reset apart_reset_submit_after, of new_reset "[]" b]
    by (simp add: sub_literal_Nil[OF ne_reset])
  finally show ?thesis by (simp add: submit_renamed_def)
qed

lemma apply_all_submit:
  "apply_all transformations (u @ frag_submit @ v)
     = apply_all transformations u @ submit_renamed @ apply_all transformations v"
  by (simp add: apply_all_live sub_reset_submit
      sub_literal_middle[OF ne_state apart_state_frag_submit]
      sub_literal_middle[OF ne_edit apart_edit_renamed]
      sub_literal_middle[OF ne_select apart_select_renamed]
      sub_literal_middle[OF ne_project_item apart_project_item_renamed])

subsection \<open>The line of the state declaration\<close>

text \<open>
  An occurrence of the state declaration that shares a character with an occurrence
  of the line \<open>old_line\<close> is the one that has this occurrence as its own line.
\<close>

lemma line_in_state:
  assumes eq: "x @ frag_state @ y = u @ old_line @ v"
    and ov1: "length x < length u + length old_line"
    and ov2: "length u < length x + length frag_state"
  shows "suffix ctx_before u \<and> prefix ctx_after v"
proof -
  have line: "0 < length old_line" using unb_old_line by (simp add: unbordered_def)
  have len: "length frag_state = length ctx_before + length old_line + length ctx_after"
    by (simp add: frag_state_split)
  have eq1: "u @ old_line @ v = (x @ ctx_before) @ old_line @ (ctx_after @ y)"
    using eq by (simp add: frag_state_split)
  from unbordered_occ[OF unb_old_line eq1]
  consider "u = x @ ctx_before"
    | "length (x @ ctx_before) + length old_line \<le> length u"
    | "length u + length old_line \<le> length (x @ ctx_before)"
    by blast
  then show ?thesis
  proof cases
    case 1
    with eq1 have "v = ctx_after @ y" by simp
    with 1 show ?thesis by (simp add: suffix_def prefix_def)
  next
    case 2
    have "u @ old_line @ v = (x @ ctx_before @ old_line) @ ctx_after @ y"
      using eq1 by simp
    from apart_occ[OF apart_after_line this] 2 ov2 line len show ?thesis
      by auto
  next
    case 3
    have "u @ old_line @ v = x @ ctx_before @ (old_line @ ctx_after @ y)"
      using eq1 by simp
    from apart_occ[OF apart_before_line this] 3 ov1 line show ?thesis
      by auto
  qed
qed

lemma sub_state_line:
  assumes out: "\<not> (suffix ctx_before u \<and> prefix ctx_after v)"
  shows "sub_state (u @ old_line @ v) = sub_state u @ old_line @ sub_state v"
proof -
  have state: "0 < length frag_state" using ne_state by simp
  have after: "ctx_after \<noteq> []"
    by (simp only: ctx_after_def text_eval list.distinct)
  have 1: "sub_state (u @ old_line @ v) = sub_state u @ sub_state (old_line @ v)"
  proof (rule sub_literal_append[OF ne_state])
    fix x y assume eq: "u @ old_line @ v = x @ frag_state @ y"
    show "length x + length frag_state \<le> length u \<or> length u \<le> length x"
    proof (rule ccontr)
      assume "\<not> ?thesis"
      then have "length x < length u + length old_line" "length u < length x + length frag_state"
        by auto
      from line_in_state[OF eq[symmetric] this] out show False by simp
    qed
  qed
  have 2: "sub_state (old_line @ v) = sub_state old_line @ sub_state v"
  proof (rule sub_literal_append[OF ne_state])
    fix x y assume eq: "old_line @ v = x @ frag_state @ y"
    show "length x + length frag_state \<le> length old_line \<or> length old_line \<le> length x"
    proof (rule ccontr)
      assume "\<not> ?thesis"
      then have a: "length x < length old_line" by auto
      have eq': "(u @ x) @ frag_state @ y = u @ old_line @ v" using eq by simp
      have "length (u @ x) < length u + length old_line"
        "length u < length (u @ x) + length frag_state"
        using a state by auto
      from line_in_state[OF eq' this] out show False by simp
    qed
  qed
  have 3: "sub_state old_line = old_line"
  proof (rule sub_literal_no_match, rule notI)
    assume "sublist frag_state old_line"
    then have "length frag_state \<le> length old_line" by (rule sublist_length_le)
    with after show False by (simp add: frag_state_split)
  qed
  show ?thesis by (simp add: 1 2 3)
qed

lemma apply_all_line:
  assumes "\<not> (suffix ctx_before u \<and> prefix ctx_after v)"
  shows "apply_all transformations (u @ old_line @ v)
     = apply_all transformations u @ old_line @ apply_all transformations v"
  by (simp add: apply_all_live sub_state_line[OF assms]
      sub_literal_middle[OF ne_reset apart_reset_line]
      sub_literal_middle[OF ne_edit apart_edit_line]
      sub_literal_middle[OF ne_select apart_select_line]
      sub_literal_middle[OF ne_project_item apart_project_item_line])

lemma apply_all_Nil: "apply_all transformations [] = []"
  by (simp add: apply_all_unfold sub_literal_Nil ne_state ne_reset ne_edit ne_submit ne_select
      ne_project_item)

subsection \<open>The script, case by case\<close>

lemma printed_append: "printed (es @ es') = printed es @ printed es'"
  by (induction es rule: printed.induct) auto

lemma universal_newlines_Cons:
  "c \<noteq> cr \<Longrightarrow> universal_newlines (c # cs) = c # universal_newlines cs"
  by (cases cs) auto

lemma universal_newlines_append:
  "cr \<notin> set a \<Longrightarrow> universal_newlines (a @ b) = a @ universal_newlines b"
  by (induction a) (auto simp: universal_newlines_Cons)

lemma universal_newlines_id: "cr \<notin> set s \<Longrightarrow> universal_newlines s = s"
  using universal_newlines_append[of s "[]"] by simp

lemma no_cr_frag_state: "cr \<notin> set frag_state"
  by (simp only: frag_state_def text_eval list.set insert_iff empty_iff)

lemma no_cr_fixture_partial: "cr \<notin> set fixture_partial"
  by (simp only: fixture_partial_def frag_edit_def frag_submit_def frag_select_def
      frag_project_item_def text_eval list.set insert_iff empty_iff)

lemma main_cases:
  "main w =
     (case files w target of
        None \<Rightarrow> (Inl FileNotFoundError, w)
      | Some f \<Rightarrow>
          if \<not> readable f then (Inl PermissionError, w)
          else (case contents f of
                  Undecodable \<Rightarrow> (Inl UnicodeDecodeError, w)
                | Text s \<Rightarrow>
                    if writable f
                    then (Inr (),
                          w\<lparr>files := (files w)(target \<mapsto>
                                f\<lparr>contents := Text (apply_all transformations (universal_newlines s))\<rparr>),
                            trace := trace w @ [Read target (universal_newlines s),
                                                Write target (apply_all transformations (universal_newlines s)),
                                                Print success_line]\<rparr>)
                    else (Inl PermissionError,
                          w\<lparr>trace := trace w @ [Read target (universal_newlines s)]\<rparr>)))"
  by (simp add: main_def read_text_def open_read_def write_text_def print_line_def rewrite_total
      split: option.splits contents.splits)

lemma main_world_with:
  "main (world_with s)
     = (Inr (), world_done (universal_newlines s) (apply_all transformations (universal_newlines s)))"
  by (simp add: main_cases world_with_def world_done_def)

lemma apply_all_frag_state: "apply_all transformations frag_state = new_state"
  using apply_all_state[of "[]" "[]"] by (simp add: apply_all_Nil)

lemma main_world_state: "main (world_with frag_state) = (Inr (), world_done frag_state new_state)"
  by (simp add: main_world_with apply_all_frag_state universal_newlines_id[OF no_cr_frag_state])

lemma universal_newlines_crlf: "universal_newlines crlf_stored = crlf_read"
  by (simp add: crlf_stored_def crlf_read_def universal_newlines_append[OF no_cr_frag_state])

lemma apply_all_crlf: "apply_all transformations crlf_read = crlf_written"
proof -
  have "apply_all transformations ([nl] @ ''x'' @ [nl]) = [nl] @ ''x'' @ [nl]"
    unfolding apply_all_live
    by (simp only: frag_state_def frag_reset_def frag_edit_def frag_select_def
        frag_project_item_def sub_eval)
  with apply_all_state[of "[]" "[nl] @ ''x'' @ [nl]"] show ?thesis
    by (simp add: crlf_read_def crlf_written_def apply_all_Nil)
qed

lemma main_world_crlf: "main (world_with crlf_stored) = (Inr (), world_done crlf_read crlf_written)"
  by (simp add: main_world_with universal_newlines_crlf apply_all_crlf)

lemma rewrite_state_alone: "rewrite frag_state = Some new_state"
  by (simp add: rewrite_total apply_all_frag_state)

subsection \<open>A substitution whose pattern does not occur\<close>

lemma sub_literal_replaces: "p \<noteq> [] \<Longrightarrow> replaces p r t (sub_literal p r t)"
  unfolding replaces_def by (rule sub_literal_frame)

lemma re_sub_no_match:
  "re_literal pattern = Some p \<Longrightarrow> re_template repl = Some r \<Longrightarrow> \<not> sublist p text
    \<Longrightarrow> re_sub pattern repl text flags = Some text"
  by (simp add: re_sub_literal sub_literal_no_match)

lemma main_succeeds:
  "files w target = Some f \<Longrightarrow> readable f \<Longrightarrow> writable f \<Longrightarrow> contents f = Text s
    \<Longrightarrow> \<exists>w'. main w = (Inr (), w')"
  by (simp add: main_cases)

subsection \<open>The script on the two files\<close>

lemmas fixture_defs =
  fixture_all_def fixture_partial_def fixture_all_out_def fixture_partial_out_def
  frag_state_def frag_reset_def frag_edit_def frag_submit_def frag_select_def
  frag_project_item_def new_state_def new_reset_def new_edit_def new_select_def
  new_project_item_def submit_renamed_def submit_before_def submit_after_def

lemma fixture_all_eval: "apply_all transformations fixture_all = fixture_all_out"
  unfolding apply_all_live by (simp only: fixture_defs sub_eval)

lemma fixture_all_out_absent: "\<not> sublist new_submit fixture_all_out"
  by (simp only: fixture_defs new_submit_def sublist_eval)

lemma fixture_partial_eval: "apply_all transformations fixture_partial = fixture_partial_out"
  unfolding apply_all_live by (simp only: fixture_defs sub_eval)

lemma fixture_partial_out_absent: "\<not> sublist new_submit fixture_partial_out"
  by (simp only: fixture_defs new_submit_def sublist_eval)

lemma fixture_partial_missing: "\<not> sublist frag_state fixture_partial"
  by (simp only: fixture_defs sublist_eval)

lemma fixture_all_present:
  "sublist frag_state fixture_all" "sublist frag_reset fixture_all" "sublist frag_edit fixture_all"
  "sublist frag_submit fixture_all" "sublist frag_select fixture_all"
  "sublist frag_project_item fixture_all"
  by (simp_all add: fixture_all_def sublist_append sublist_Cons_right)

lemma fixture_partial_present:
  "sublist frag_reset fixture_partial" "sublist frag_edit fixture_partial"
  "sublist frag_submit fixture_partial" "sublist frag_select fixture_partial"
  "sublist frag_project_item fixture_partial"
  by (simp_all add: fixture_partial_def sublist_append sublist_Cons_right sublist_reset_submit)

lemma fixture_out_submit:
  "sublist submit_renamed fixture_all_out" "sublist submit_renamed fixture_partial_out"
proof -
  have e1: "fixture_all_out = (new_state @ nl # new_reset @ nl # new_edit @ [nl])
      @ submit_renamed @ (nl # new_select @ nl # new_project_item)"
    by (simp add: fixture_all_out_def)
  show "sublist submit_renamed fixture_all_out"
    unfolding e1 by (rule sublist_appendI)
  have e2: "fixture_partial_out = (new_edit @ [nl])
      @ submit_renamed @ (nl # new_select @ nl # new_project_item)"
    by (simp add: fixture_partial_out_def)
  show "sublist submit_renamed fixture_partial_out"
    unfolding e2 by (rule sublist_appendI)
qed

lemma sub_submit_nl: "sub_submit [nl] = [nl]"
  by (rule sub_literal_no_match) (simp only: frag_submit_def sublist_eval)

lemma apply_all_nl: "apply_all transformations [nl] = [nl]"
  unfolding apply_all_live
  by (simp only: frag_state_def frag_reset_def frag_edit_def frag_select_def
      frag_project_item_def sub_eval)

lemma fixture_two_blocks_eval:
  "apply_all transformations fixture_two_blocks = fixture_two_blocks_out"
proof -
  have "apply_all transformations ([nl] @ frag_submit @ []) = [nl] @ submit_renamed @ []"
    unfolding apply_all_submit by (simp add: apply_all_nl apply_all_Nil)
  with apply_all_submit[of "[]" "[nl] @ frag_submit @ []"] show ?thesis
    by (simp add: fixture_two_blocks_def fixture_two_blocks_out_def apply_all_Nil)
qed

lemma fixture_two_blocks_out_absent: "\<not> sublist new_submit fixture_two_blocks_out"
  by (simp only: fixture_two_blocks_out_def submit_renamed_def submit_before_def new_reset_def
      submit_after_def new_submit_def sublist_eval)

text \<open>
  Each call on its own replaces every occurrence of its fragment in the text it is given:
  a text made of pieces with the fragment between them becomes the rewritten pieces with
  the replacement between them.
\<close>

lemma re_sub_every_occurrence:
  "re_sub old_state new_state (join frag_state us) [] = Some (join new_state (map sub_state us))
   \<and> re_sub old_reset new_reset (join frag_reset us) [] = Some (join new_reset (map sub_reset us))
   \<and> re_sub old_edit new_edit (join frag_edit us) [] = Some (join new_edit (map sub_edit us))
   \<and> re_sub old_submit new_submit (join frag_submit us) [DOTALL]
       = Some (join new_submit (map sub_submit us))
   \<and> re_sub old_select new_select (join frag_select us) [DOTALL]
       = Some (join new_select (map sub_select us))
   \<and> re_sub old_project_item new_project_item (join frag_project_item us) [DOTALL]
       = Some (join new_project_item (map sub_project_item us))"
  by (simp add: re_sub_literal[OF lit_state tpl_state] re_sub_literal[OF lit_reset tpl_reset]
      re_sub_literal[OF lit_edit tpl_edit] re_sub_literal[OF lit_submit tpl_submit]
      re_sub_literal[OF lit_select tpl_select]
      re_sub_literal[OF lit_project_item tpl_project_item]
      sub_literal_join[OF unb_state] sub_literal_join[OF unb_reset] sub_literal_join[OF unb_edit]
      sub_literal_join[OF unb_submit] sub_literal_join[OF unb_select]
      sub_literal_join[OF unb_project_item])

lemma re_sub_two_blocks:
  "re_sub old_submit new_submit fixture_two_blocks [DOTALL] = Some (join_lines [new_submit, new_submit])"
proof -
  have "fixture_two_blocks = join frag_submit [[], [nl], []]"
    by (simp add: fixture_two_blocks_def)
  then show ?thesis
    using re_sub_every_occurrence[of "[[], [nl], []]"]
    by (simp add: sub_submit_nl sub_literal_Nil[OF ne_submit])
qed

section \<open>The claims\<close>

text \<open>
  Claim C1: a file that contains all six original fragments is rewritten to a file that
  contains all six replacement fragments and none of the original ones.  On the file
  \<open>fixture_all\<close>, which contains all six, the script does not do this: the second
  substitution renames the reset call inside the try block of handleSubmit, the fourth
  pattern then no longer occurs, and the output holds the try block with only that call
  renamed (\<open>submit_renamed\<close>); the replacement \<open>new_submit\<close> does not occur in
  it.  This happens to every try block in every file (\<open>apply_all_submit\<close>,
  \<open>apply_all_live\<close>).
\<close>

theorem C1_submit_not_replaced:
  "sublist frag_state fixture_all \<and> sublist frag_reset fixture_all
   \<and> sublist frag_edit fixture_all \<and> sublist frag_submit fixture_all
   \<and> sublist frag_select fixture_all \<and> sublist frag_project_item fixture_all
   \<and> rewrite fixture_all = Some fixture_all_out
   \<and> sublist submit_renamed fixture_all_out
   \<and> \<not> sublist new_submit fixture_all_out"
  by (simp add: fixture_all_present rewrite_total fixture_all_eval fixture_out_submit
      fixture_all_out_absent)

text \<open>
  Claim C2: a substitution whose pattern does not occur returns its text unchanged, no
  error is raised and the script writes the file and reports success; for a file that
  lacks exactly one fragment the other five are still replaced.  The first half holds
  (\<open>re_sub_no_match\<close>, \<open>main_succeeds\<close>), and every occurrence of the state
  declaration, the reset call, the handleEdit call, the select and the ProjectItem head
  is replaced whatever else the file holds (\<open>apply_all_state\<close>, \<open>apply_all_reset\<close>,
  \<open>apply_all_edit\<close>, \<open>apply_all_select\<close>, \<open>apply_all_project_item\<close>).  The try
  block of handleSubmit is not: on \<open>fixture_partial\<close>, which lacks only the state
  declaration, the run succeeds and writes the file, and the block comes out with only
  its reset call renamed; \<open>new_submit\<close> does not occur in the output.
\<close>

theorem C2_partial_file:
  "\<not> sublist frag_state fixture_partial \<and> sublist frag_reset fixture_partial
   \<and> sublist frag_edit fixture_partial \<and> sublist frag_submit fixture_partial
   \<and> sublist frag_select fixture_partial \<and> sublist frag_project_item fixture_partial
   \<and> main (world_with fixture_partial) = (Inr (), world_done fixture_partial fixture_partial_out)
   \<and> sublist submit_renamed fixture_partial_out
   \<and> \<not> sublist new_submit fixture_partial_out"
  by (simp add: fixture_partial_missing fixture_partial_present main_world_with
      universal_newlines_id[OF no_cr_fixture_partial]
      fixture_partial_eval fixture_out_submit fixture_partial_out_absent)

text \<open>
  Claim C3: the six substitutions are idempotent.  For every text the pipeline returns a
  text on which a second run returns the same text, because none of the six fragments
  occurs in it.
\<close>

theorem C3_rewrite_idempotent:
  "\<exists>t'. rewrite t = Some t' \<and> rewrite t' = Some t'
     \<and> \<not> sublist frag_state t' \<and> \<not> sublist frag_reset t' \<and> \<not> sublist frag_edit t'
     \<and> \<not> sublist frag_submit t' \<and> \<not> sublist frag_select t'
     \<and> \<not> sublist frag_project_item t'"
  by (simp add: rewrite_total apply_all_fixpoint absent_state absent_reset absent_edit
      absent_submit absent_select absent_project_item)

text \<open>An instance on concrete texts.\<close>

theorem C3_rewrite_idempotent_witness:
  "rewrite frag_state = Some new_state \<and> rewrite new_state = Some new_state"
  using C3_rewrite_idempotent[of frag_state] by (auto simp: rewrite_state_alone)




text \<open>
  Claim C5: the line \<open>old_line\<close> inside the state declaration (between
  \<open>ctx_before\<close> and \<open>ctx_after\<close>) is replaced by \<open>new_line\<close> in that context,
  whatever text \<open>u\<close> and \<open>v\<close> surrounds it; an occurrence of the line that is
  not in this context stays as it is.  In both cases the surrounding texts are
  rewritten on their own.
\<close>

theorem C5_state_line:
  "frag_state = ctx_before @ old_line @ ctx_after
   \<and> (\<exists>u' v'. rewrite u = Some u' \<and> rewrite v = Some v'
        \<and> rewrite (u @ ctx_before @ old_line @ ctx_after @ v)
            = Some (u' @ ctx_before @ new_line @ ctx_after @ v'))
   \<and> (\<not> (suffix ctx_before u \<and> prefix ctx_after v) \<longrightarrow>
        (\<exists>u' v'. rewrite u = Some u' \<and> rewrite v = Some v'
          \<and> rewrite (u @ old_line @ v) = Some (u' @ old_line @ v')))"
proof (intro conjI impI)
  show "frag_state = ctx_before @ old_line @ ctx_after" by (rule frag_state_split)
next
  have "apply_all transformations (u @ ctx_before @ old_line @ ctx_after @ v)
      = apply_all transformations u @ ctx_before @ new_line @ ctx_after @ apply_all transformations v"
    using apply_all_state[of u v] by (simp add: frag_state_split new_state_split)
  then show "\<exists>u' v'. rewrite u = Some u' \<and> rewrite v = Some v'
        \<and> rewrite (u @ ctx_before @ old_line @ ctx_after @ v)
            = Some (u' @ ctx_before @ new_line @ ctx_after @ v')"
    by (simp add: rewrite_total)
next
  assume "\<not> (suffix ctx_before u \<and> prefix ctx_after v)"
  from apply_all_line[OF this]
  show "\<exists>u' v'. rewrite u = Some u' \<and> rewrite v = Some v'
          \<and> rewrite (u @ old_line @ v) = Some (u' @ old_line @ v')"
    by (simp add: rewrite_total)
qed

text \<open>An instance on concrete texts.\<close>

theorem C5_state_line_witness:
  "\<not> (suffix ctx_before ''x = { '' \<and> prefix ctx_after '' }'')
   \<and> rewrite (''x = { '' @ old_line @ '' }'') = Some (''x = { '' @ old_line @ '' }'')
   \<and> rewrite (''x'' @ ctx_before @ old_line @ ctx_after @ ''y'')
       = Some (''x'' @ ctx_before @ new_line @ ctx_after @ ''y'')"
proof -
  have h: "\<not> (suffix ctx_before ''x = { '' \<and> prefix ctx_after '' }'')"
    by (simp only: ctx_after_def prefix_eval text_eval)
  have s: "apply_all transformations t = t" if "t \<in> {''x = { '', '' }'', ''x'', ''y''}" for t
    using that unfolding apply_all_live
    by (auto simp only: frag_state_def frag_reset_def frag_edit_def frag_select_def
        frag_project_item_def sub_eval insert_iff empty_iff)
  have r: "rewrite t = Some t" if "t \<in> {''x = { '', '' }'', ''x'', ''y''}" for t
    using s[OF that] by (simp add: rewrite_total)
  from C5_state_line[of "''x = { ''" "'' }''"] C5_state_line[of "''x''" "''y''"] h
  show ?thesis by (auto simp: r)
qed

text \<open>
  Claim C6: after a successful run the target file holds the six substitutions applied
  in the order of the script to the text that was read, each applied to the result of
  the one before; the write goes to the path that was read and replaces the contents.
  The text that was read is the stored text with its line ends translated.
\<close>

theorem C6_written_content:
  assumes "main w = (Inr (), w')"
  shows "\<exists>f stored content c1 c2 c3 c4 c5 c6.
      files w target = Some f \<and> contents f = Text stored
      \<and> content = universal_newlines stored
      \<and> re_sub old_state new_state content [] = Some c1
      \<and> re_sub old_reset new_reset c1 [] = Some c2
      \<and> re_sub old_edit new_edit c2 [] = Some c3
      \<and> re_sub old_submit new_submit c3 [DOTALL] = Some c4
      \<and> re_sub old_select new_select c4 [DOTALL] = Some c5
      \<and> re_sub old_project_item new_project_item c5 [DOTALL] = Some c6
      \<and> files w' = (files w)(target \<mapsto> f\<lparr>contents := Text c6\<rparr>)
      \<and> trace w' = trace w @ [Read target content, Write target c6, Print success_line]"
proof -
  from assms obtain f stored where f: "files w target = Some f" "contents f = Text stored"
    and w': "files w' = (files w)(target \<mapsto>
        f\<lparr>contents := Text (apply_all transformations (universal_newlines stored))\<rparr>)"
      "trace w' = trace w @ [Read target (universal_newlines stored),
         Write target (apply_all transformations (universal_newlines stored)), Print success_line]"
    by (auto simp: main_cases split: option.splits if_splits contents.splits)
  define content where "content = universal_newlines stored"
  have "re_sub old_state new_state content [] = Some (sub_state content)"
    "re_sub old_reset new_reset (sub_state content) [] = Some (sub_reset (sub_state content))"
    "re_sub old_edit new_edit (sub_reset (sub_state content)) []
       = Some (sub_edit (sub_reset (sub_state content)))"
    "re_sub old_submit new_submit (sub_edit (sub_reset (sub_state content))) [DOTALL]
       = Some (sub_submit (sub_edit (sub_reset (sub_state content))))"
    "re_sub old_select new_select (sub_submit (sub_edit (sub_reset (sub_state content)))) [DOTALL]
       = Some (sub_select (sub_submit (sub_edit (sub_reset (sub_state content)))))"
    "re_sub old_project_item new_project_item
         (sub_select (sub_submit (sub_edit (sub_reset (sub_state content))))) [DOTALL]
       = Some (apply_all transformations content)"
    by (simp_all add: apply_all_unfold re_sub_literal[OF lit_state tpl_state]
        re_sub_literal[OF lit_reset tpl_reset] re_sub_literal[OF lit_edit tpl_edit]
        re_sub_literal[OF lit_submit tpl_submit] re_sub_literal[OF lit_select tpl_select]
        re_sub_literal[OF lit_project_item tpl_project_item])
  with f w' content_def show ?thesis by blast
qed

text \<open>
  An instance on a stored text with a carriage return and line feed and a carriage
  return alone: the script reads \<open>crlf_read\<close> and writes \<open>crlf_written\<close>.
\<close>

theorem C6_written_content_witness:
  "main (world_with crlf_stored) = (Inr (), world_done crlf_read crlf_written)
   \<and> universal_newlines crlf_stored = crlf_read
   \<and> (\<exists>f stored content c1 c2 c3 c4 c5 c6.
      files (world_with crlf_stored) target = Some f \<and> contents f = Text stored
      \<and> content = universal_newlines stored
      \<and> re_sub old_state new_state content [] = Some c1
      \<and> re_sub old_reset new_reset c1 [] = Some c2
      \<and> re_sub old_edit new_edit c2 [] = Some c3
      \<and> re_sub old_submit new_submit c3 [DOTALL] = Some c4
      \<and> re_sub old_select new_select c4 [DOTALL] = Some c5
      \<and> re_sub old_project_item new_project_item c5 [DOTALL] = Some c6
      \<and> files (world_done crlf_read crlf_written)
          = (files (world_with crlf_stored))(target \<mapsto> f\<lparr>contents := Text c6\<rparr>)
      \<and> trace (world_done crlf_read crlf_written)
          = trace (world_with crlf_stored) @ [Read target content, Write target c6, Print success_line])"
  using C6_written_content[OF main_world_crlf] main_world_crlf universal_newlines_crlf by blast

text \<open>
  Claim C7: a successful run prints the one success line, after the write; a run that
  ends with an exception prints nothing and leaves the files as they were.
\<close>

theorem C7_success_line:
  "(main w = (Inr (), w') \<longrightarrow>
      (\<exists>s s'. trace w' = trace w @ [Read target s, Write target s', Print success_line])
      \<and> printed (trace w') = printed (trace w) @ [success_line])
   \<and> (main w = (Inl e, w') \<longrightarrow> printed (trace w') = printed (trace w) \<and> files w' = files w)"
  by (auto simp: main_cases printed_append split: option.splits if_splits contents.splits)

text \<open>An instance on concrete texts.\<close>

theorem C7_success_line_witness:
  "main (world_with frag_state) = (Inr (), world_done frag_state new_state)
   \<and> printed (trace (world_done frag_state new_state)) = [success_line]
   \<and> main world_locked = (Inl PermissionError, world_locked)
   \<and> printed (trace world_locked) = []"
proof -
  have l: "main world_locked = (Inl PermissionError, world_locked)"
    by (simp add: main_cases world_locked_def)
  from C7_success_line[of "world_with frag_state" "world_done frag_state new_state"]
    C7_success_line[of world_locked world_locked PermissionError] main_world_state l
  show ?thesis by (simp add: world_with_def world_locked_def)
qed

text \<open>
  Claim C8, as stated: two runs whose target file holds the same text write the same
  text and agree on whether success is reported.  It fails when the two files differ
  in their write permission: the run on the writable file succeeds, the run on the
  read-only file with the same text ends with \<open>PermissionError\<close>.
\<close>

theorem C8_same_text_counterexample:
  "map_option contents (files (world_with frag_state) target) = Some (Text frag_state)
   \<and> map_option contents (files (world_readonly frag_state) target) = Some (Text frag_state)
   \<and> can_open_read (world_with frag_state) target
   \<and> can_open_read (world_readonly frag_state) target
   \<and> fst (main (world_with frag_state)) = Inr ()
   \<and> fst (main (world_readonly frag_state)) = Inl PermissionError"
  by (simp add: main_cases world_with_def world_readonly_def can_open_read_def)

text \<open>
  Claim C8, amended: two runs whose target file is readable, holds the same contents and
  has the same write permission have the same outcome, leave the same target file and
  add the same events (the read, the write, the success line), whatever their other
  files, arguments, environment or earlier trace.
\<close>

theorem C8_deterministic:
  assumes "files w1 target = Some f1" and "files w2 target = Some f2"
    and "readable f1" and "readable f2"
    and "contents f1 = contents f2" and "writable f1 = writable f2"
  shows "fst (main w1) = fst (main w2)
     \<and> files (snd (main w1)) target = files (snd (main w2)) target
     \<and> drop (length (trace w1)) (trace (snd (main w1)))
       = drop (length (trace w2)) (trace (snd (main w2)))"
proof -
  have "f1 = f2" using assms(3-6) by (cases f1, cases f2) simp
  with assms(1,2) show ?thesis
    by (auto simp: main_cases split: option.splits contents.splits)
qed

text \<open>An instance on concrete texts.\<close>

theorem C8_deterministic_witness:
  "files (world_with frag_state) target
      = Some \<lparr>readable = True, writable = True, contents = Text frag_state\<rparr>
   \<and> files (world_other frag_state) target
      = Some \<lparr>readable = True, writable = True, contents = Text frag_state\<rparr>
   \<and> main (world_with frag_state) = (Inr (), world_done frag_state new_state)
   \<and> fst (main (world_with frag_state)) = fst (main (world_other frag_state))
   \<and> files (snd (main (world_with frag_state))) target
       = files (snd (main (world_other frag_state))) target
   \<and> drop (length (trace (world_with frag_state))) (trace (snd (main (world_with frag_state))))
       = drop (length (trace (world_other frag_state))) (trace (snd (main (world_other frag_state))))"
proof -
  have h1: "files (world_with frag_state) target
      = Some \<lparr>readable = True, writable = True, contents = Text frag_state\<rparr>"
    by (simp add: world_with_def)
  have h2: "files (world_other frag_state) target
      = Some \<lparr>readable = True, writable = True, contents = Text frag_state\<rparr>"
    by (simp add: world_other_def)
  from C8_deterministic[OF h1 h2] h1 h2 main_world_state show ?thesis by simp
qed

text \<open>
  Claim C9: each of the six substitutions replaces every occurrence of its fragment, not
  only the first, so that in a file with two or more occurrences of one fragment all of
  them are rewritten.  Each call does replace every occurrence in the text it is given
  (\<open>re_sub_every_occurrence\<close>), and the fourth call on its own would turn both try
  blocks of \<open>fixture_two_blocks\<close> into \<open>new_submit\<close>.  In the script it never gets
  them: the second call has renamed the reset call in each block, both blocks come out
  as \<open>submit_renamed\<close>, and \<open>new_submit\<close> does not occur in the output.
\<close>

theorem C9_two_blocks:
  "fixture_two_blocks = frag_submit @ [nl] @ frag_submit
   \<and> re_sub old_submit new_submit fixture_two_blocks [DOTALL]
       = Some (new_submit @ [nl] @ new_submit)
   \<and> rewrite fixture_two_blocks = Some fixture_two_blocks_out
   \<and> fixture_two_blocks_out = submit_renamed @ [nl] @ submit_renamed
   \<and> \<not> sublist new_submit fixture_two_blocks_out"
proof -
  have a: "fixture_two_blocks = frag_submit @ [nl] @ frag_submit"
    by (simp add: fixture_two_blocks_def)
  have b: "fixture_two_blocks_out = submit_renamed @ [nl] @ submit_renamed"
    by (simp add: fixture_two_blocks_out_def)
  have c: "re_sub old_submit new_submit fixture_two_blocks [DOTALL]
      = Some (new_submit @ [nl] @ new_submit)"
    using re_sub_two_blocks by simp
  have d: "rewrite fixture_two_blocks = Some fixture_two_blocks_out"
    by (simp add: rewrite_total fixture_two_blocks_eval)
  from a b c d fixture_two_blocks_out_absent show ?thesis
    by (intro conjI)
qed

text \<open>
  Claim C10: every step changes its text only at occurrences of its fragment.  The text
  before a step and the text after it are the same pieces in the same order, joined by
  the fragment before and by the replacement after.
\<close>

theorem C10_frame:
  "\<exists>t1 t2 t3 t4 t5 t6.
      replaces frag_state new_state t t1 \<and> replaces frag_reset new_reset t1 t2
    \<and> replaces frag_edit new_edit t2 t3 \<and> replaces frag_submit new_submit t3 t4
    \<and> replaces frag_select new_select t4 t5
    \<and> replaces frag_project_item new_project_item t5 t6
    \<and> rewrite t = Some t6"
proof -
  have "rewrite t
      = Some (sub_project_item (sub_select (sub_submit (sub_edit (sub_reset (sub_state t))))))"
    by (simp add: rewrite_total apply_all_unfold)
  with sub_literal_replaces[OF ne_state] sub_literal_replaces[OF ne_reset]
    sub_literal_replaces[OF ne_edit] sub_literal_replaces[OF ne_submit]
    sub_literal_replaces[OF ne_select] sub_literal_replaces[OF ne_project_item]
  show ?thesis by blast
qed

text \<open>An instance on concrete texts.\<close>

theorem C10_frame_witness:
  "rewrite (''x'' @ frag_state @ ''y'') = Some (''x'' @ new_state @ ''y'')
   \<and> (\<exists>t1 t2 t3 t4 t5 t6.
      replaces frag_state new_state (''x'' @ frag_state @ ''y'') t1
    \<and> replaces frag_reset new_reset t1 t2
    \<and> replaces frag_edit new_edit t2 t3 \<and> replaces frag_submit new_submit t3 t4
    \<and> replaces frag_select new_select t4 t5
    \<and> replaces frag_project_item new_project_item t5 t6
    \<and> rewrite (''x'' @ frag_state @ ''y'') = Some t6)"
proof -
  have s: "apply_all transformations ''x'' = ''x''" "apply_all transformations ''y'' = ''y''"
    unfolding apply_all_live
    by (simp_all only: frag_state_def frag_reset_def frag_edit_def frag_select_def
        frag_project_item_def sub_eval)
  have "rewrite (''x'' @ frag_state @ ''y'') = Some (''x'' @ new_state @ ''y'')"
    using apply_all_state[of "''x''" "''y''"] by (simp add: rewrite_total s)
  with C10_frame[of "''x'' @ frag_state @ ''y''"] show ?thesis by blast
qed


end
